theory Spec2Isabelle
  imports Complex_Main "HOL-Library.Word"
begin

unbundle bit_operations_syntax

section \<open>Numbers, bytes and errors\<close>

text \<open>
  The program is TypeScript. Its \<open>number\<close> values are modelled as \<open>real\<close>: the model
  covers finite values and computes without rounding. In the PCM codec this is what the
  program computes, not an idealisation: a \<open>Float32Array\<close> element times \<open>32768\<close> is a
  change of exponent, \<open>Math.min\<close>, \<open>Math.max\<close> and the conversion to an integer are
  exact, and an \<open>Int16\<close> divided by \<open>32768.0\<close> has at most 16 significant bits.
  In the scheduler and the effects the reals stand for double precision: a sum such as
  \<open>nextStartTime + duration\<close> is the exact sum here and the nearest double there.
  Elements of an \<open>Int16Array\<close> are \<open>16 word\<close>, bytes are \<open>8 word\<close>; array lengths,
  indices and channel counts are \<open>nat\<close>. An exception is a value of \<open>js_error\<close> on the
  left of a sum.
\<close>

type_synonym byte = "8 word"
type_synonym int16 = "16 word"

datatype js_error = RangeError | NotSupportedError | IndexSizeError

section \<open>utils.ts: the PCM encoder\<close>

text \<open>
  Storing a number into an \<open>Int16Array\<close> element applies ECMAScript's \<open>ToInt16\<close>: the
  fraction is dropped towards zero and the integer is taken modulo \<open>2^16\<close>.
\<close>

definition toInt16 :: "real \<Rightarrow> int16" where
  "toInt16 x = word_of_int (if x < 0 then \<lceil>x\<rceil> else \<lfloor>x\<rfloor>)"

text \<open>
  The body of the loop of \<open>createBlobFromFloat32\<close>:
  \<^verbatim>\<open>int16[i] = Math.max(-32768, Math.min(32767, data[i] * 32768));\<close>
\<close>

definition pcm_sample :: "real \<Rightarrow> int16" where
  "pcm_sample s = toInt16 (max (- 32768) (min 32767 (s * 32768)))"

text \<open>
  \<^verbatim>\<open>new Uint8Array(int16.buffer)\<close> views the elements in the byte order of the platform,
  which is little-endian on every platform a browser runs on: low byte first.
\<close>

definition int16_bytes :: "int16 \<Rightarrow> byte list" where
  "int16_bytes w = [ucast w, ucast (drop_bit 8 w)]"

definition uint8_view :: "int16 list \<Rightarrow> byte list" where
  "uint8_view ws = concat (map int16_bytes ws)"

definition pcm16_bytes :: "real list \<Rightarrow> byte list" where
  "pcm16_bytes samples = uint8_view (map pcm_sample samples)"

text \<open>
  \<open>encode\<close> builds a binary string with one character per byte and hands it to the
  platform's \<open>btoa\<close>, which is a parameter here.
\<close>

definition encode :: "(string \<Rightarrow> string) \<Rightarrow> byte list \<Rightarrow> string" where
  "encode btoa bytes = btoa (map (\<lambda>b. char_of (unat b)) bytes)"

record audio_blob =
  blob_data :: string
  blob_mimeType :: string

definition createBlobFromFloat32 :: "(string \<Rightarrow> string) \<Rightarrow> real list \<Rightarrow> audio_blob" where
  "createBlobFromFloat32 btoa samples =
     \<lparr>blob_data = encode btoa (pcm16_bytes samples), blob_mimeType = ''audio/pcm;rate=16000''\<rparr>"

text \<open>
  The encoder as section 4.1 of the specification words it: round the clamped sample
  times \<open>32768\<close>, then clamp to the signed 16-bit range.
\<close>

definition spec_encodePcm16_sample :: "real \<Rightarrow> int" where
  "spec_encodePcm16_sample s =
     max (- 32768) (min 32767 (round (max (- 1) (min 1 s) * 32768)))"

section \<open>utils.ts: \<open>decodeAudioData\<close>\<close>

text \<open>
  An \<open>AudioBuffer\<close>: planar channel data, \<open>buffer_length\<close> frames per channel
  (the field \<open>length\<close> of the source) and the derived \<open>duration\<close> in seconds.
\<close>

record audio_buffer =
  numberOfChannels :: nat
  buffer_length :: nat
  sampleRate :: real
  channelData :: "real list list"

definition duration :: "audio_buffer \<Rightarrow> real" where
  "duration b = real (buffer_length b) / sampleRate b"

text \<open>
  \<open>ctx.createBuffer\<close> returns silence (all samples 0) and throws \<open>NotSupportedError\<close> for
  a channel count or a length of 0 and for a sample rate outside the range the platform
  supports. The upper limits of the platform (at least 32 channels, at least 8000 Hz to
  96000 Hz) are not modelled: the program asks for 2 channels at 48000 Hz.
\<close>

definition createBuffer :: "nat \<Rightarrow> nat \<Rightarrow> real \<Rightarrow> js_error + audio_buffer" where
  "createBuffer numChannels len rate =
     (if numChannels = 0 \<or> len = 0 \<or> rate \<le> 0 then Inl NotSupportedError
      else Inr \<lparr>numberOfChannels = numChannels, buffer_length = len, sampleRate = rate,
                channelData = replicate numChannels (replicate len 0)\<rparr>)"

text \<open>
  \<open>view.getInt16(dataIndex, true)\<close>: two bytes, low byte first, read as two's complement;
  \<open>RangeError\<close> when the two bytes are not both inside the view.
\<close>

definition getInt16 :: "byte list \<Rightarrow> nat \<Rightarrow> js_error + int16" where
  "getInt16 view byteOffset =
     (if byteOffset + 2 \<le> length view
      then Inr (word_cat (view ! (byteOffset + 1)) (view ! byteOffset))
      else Inl RangeError)"

text \<open>
  The inner loop \<^verbatim>\<open>for (let i = 0; i < numSamples; i++)\<close> over one channel, with the
  running byte offset \<open>dataIndex\<close>; an exception of \<open>getInt16\<close> ends the function.
\<close>

function sample_loop ::
  "byte list \<Rightarrow> nat \<Rightarrow> nat \<Rightarrow> nat \<Rightarrow> nat \<Rightarrow> real list \<Rightarrow> js_error + real list" where
  "sample_loop view numChannels numSamples i dataIndex chan =
     (if i < numSamples
      then (case getInt16 view dataIndex of
              Inl e \<Rightarrow> Inl e
            | Inr sample \<Rightarrow>
                sample_loop view numChannels numSamples (i + 1) (dataIndex + numChannels * 2)
                  (chan[i := real_of_int (sint sample) / 32768]))
      else Inr chan)"
  by pat_completeness auto
termination
  by (relation "measure (\<lambda>(v, nc, n, i, d, c). n - i)") auto

declare sample_loop.simps [simp del]

text \<open>The outer loop \<^verbatim>\<open>for (let channel = 0; channel < numChannels; channel++)\<close>.\<close>

function channel_loop ::
  "byte list \<Rightarrow> nat \<Rightarrow> nat \<Rightarrow> nat \<Rightarrow> audio_buffer \<Rightarrow> js_error + audio_buffer" where
  "channel_loop view numChannels numSamples channel audioBuffer =
     (if channel < numChannels
      then (case sample_loop view numChannels numSamples 0 (channel * 2)
                   (channelData audioBuffer ! channel) of
              Inl e \<Rightarrow> Inl e
            | Inr chan \<Rightarrow>
                channel_loop view numChannels numSamples (channel + 1)
                  (audioBuffer\<lparr>channelData := (channelData audioBuffer)[channel := chan]\<rparr>))
      else Inr audioBuffer)"
  by pat_completeness auto
termination
  by (relation "measure (\<lambda>(v, nc, n, c, b). nc - c)") auto

declare channel_loop.simps [simp del]

text \<open>
  \<open>decodeAudioData(data, ctx, sampleRate, numChannels)\<close>. With \<open>numChannels = 0\<close> the
  quotient \<open>data.byteLength / 2 / numChannels\<close> is \<open>Infinity\<close> or \<open>NaN\<close>, the test
  \<open>numSamples === 0\<close> fails and \<open>createBuffer\<close> throws.
\<close>

definition decodeAudioData :: "byte list \<Rightarrow> real \<Rightarrow> nat \<Rightarrow> js_error + audio_buffer" where
  "decodeAudioData data rate numChannels =
     (if numChannels = 0 then Inl NotSupportedError
      else
        let numSamples = nat \<lfloor>real (length data) / 2 / real numChannels\<rfloor>
        in if numSamples = 0 then createBuffer numChannels 1 rate
           else (case createBuffer numChannels numSamples rate of
                   Inl e \<Rightarrow> Inl e
                 | Inr audioBuffer \<Rightarrow> channel_loop data numChannels numSamples 0 audioBuffer))"

text \<open>
  For the statements about the decoder: the value of the 16-bit little-endian sample at a
  byte offset, and channel \<open>c\<close> of \<open>n\<close> interleaved frames of \<open>nc\<close> channels, whose
  \<open>k\<close>-th sample sits at byte \<open>2 * (k * nc + c)\<close>.
\<close>

definition int16_at :: "byte list \<Rightarrow> nat \<Rightarrow> real" where
  "int16_at view off =
     real_of_int (sint (word_cat (view ! (off + 1)) (view ! off) :: int16)) / 32768"

definition decoded_channel :: "byte list \<Rightarrow> nat \<Rightarrow> nat \<Rightarrow> nat \<Rightarrow> real list" where
  "decoded_channel view nc n c = map (\<lambda>k. int16_at view (2 * (k * nc + c))) [0..<n]"

section \<open>utils.ts: the peak envelope of \<open>resampleAndEncodeAudio\<close>\<close>

text \<open>
  The inner loop \<^verbatim>\<open>for (let j = start; j < end; j++)\<close>. A read past the end of the
  \<open>Float32Array\<close> gives \<open>undefined\<close>, whose absolute value is \<open>NaN\<close>; \<open>NaN > max\<close> is
  false, so such an index leaves \<open>max\<close> as it is.
\<close>

function window_peak :: "real list \<Rightarrow> nat \<Rightarrow> nat \<Rightarrow> real \<Rightarrow> real" where
  "window_peak monoChannel j end_j mx =
     (if j < end_j
      then window_peak monoChannel (j + 1) end_j
             (if j < length monoChannel \<and> \<bar>monoChannel ! j\<bar> > mx then \<bar>monoChannel ! j\<bar> else mx)
      else mx)"
  by pat_completeness auto
termination
  by (relation "measure (\<lambda>(m, j, e, mx). e - j)") auto

declare window_peak.simps [simp del]

text \<open>The outer loop \<^verbatim>\<open>for (let i = 0; i < waveformLength; i++)\<close>.\<close>

function waveform_loop :: "real list \<Rightarrow> nat \<Rightarrow> nat \<Rightarrow> nat \<Rightarrow> real list \<Rightarrow> real list" where
  "waveform_loop monoChannel waveformLength step i waveformData =
     (if i < waveformLength
      then waveform_loop monoChannel waveformLength step (i + 1)
             (waveformData[i := window_peak monoChannel (i * step) (i * step + step) 0])
      else waveformData)"
  by pat_completeness auto
termination
  by (relation "measure (\<lambda>(m, n, s, i, w). n - i)") auto

declare waveform_loop.simps [simp del]

definition waveformData :: "real list \<Rightarrow> real list" where
  "waveformData monoChannel =
     (let waveformLength = 1024;
          step = nat \<lfloor>real (length monoChannel) / real waveformLength\<rfloor>
      in waveform_loop monoChannel waveformLength step 0 (replicate waveformLength 0))"

section \<open>index.tsx: the effect parameters of \<open>PromptDj\<close>\<close>

text \<open>
  The fields of the class that the effect chain, the control handler and the Kaoss pad
  read and write, with their initial values.
\<close>

record fx_state =
  lowPassFreq :: real
  highPassFreq :: real
  reverbMix :: real
  delayTime :: real
  delayFeedback :: real
  delayMix :: real
  distortionAmount :: real
  phaserRate :: real
  phaserMix :: real
  bitDepth :: real
  sampleRateReduction :: real
  vinylCrackle :: real
  isLpfOn :: bool
  isHpfOn :: bool
  isReverbOn :: bool
  isDelayOn :: bool
  isDistortionOn :: bool
  isPhaserOn :: bool
  isBitCrusherOn :: bool
  isVinylSimOn :: bool
  bpm :: real
  temperature :: real
  topK :: real
  guidanceScale :: real
  kaossXY :: "real \<times> real"
  isKaossActive :: bool
  isKaossHeld :: bool
  activeKaossProgram :: string

definition fx_initial :: fx_state where
  "fx_initial =
     \<lparr>lowPassFreq = 22050, highPassFreq = 20, reverbMix = 0, delayTime = 1 / 2,
      delayFeedback = 3 / 10, delayMix = 0, distortionAmount = 0, phaserRate = 1 / 2,
      phaserMix = 0, bitDepth = 8, sampleRateReduction = 4, vinylCrackle = 0,
      isLpfOn = True, isHpfOn = True, isReverbOn = True, isDelayOn = True,
      isDistortionOn = True, isPhaserOn = True, isBitCrusherOn = False, isVinylSimOn = False,
      bpm = 120, temperature = 3 / 4, topK = 40, guidanceScale = 7,
      kaossXY = (1 / 2, 1 / 2), isKaossActive = False, isKaossHeld = False,
      activeKaossProgram = ''LPF Sweep Delay''\<rparr>"

text \<open>
  The parameters of the audio graph that \<open>updateFxChain\<close> ramps, and a call
  \<open>param.linearRampToValueAtTime(value, endTime)\<close> as a triple.
\<close>

datatype audio_param =
    LowPassFilter_frequency | HighPassFilter_frequency | BitCrusherBypass_gain
  | DistortionBypass_gain | PhaserLFO_frequency | PhaserLfoGain_gain | PhaserWet_gain
  | PhaserBypass_gain | DelayNode_delayTime | DelayFeedbackGain_gain | DelayWet_gain
  | DelayBypass_gain | ReverbWet_gain | ReverbBypass_gain | VinylNoiseGain_gain

type_synonym ramp = "audio_param \<times> real \<times> real"

text \<open>
  \<open>updateFxChain\<close>, as the list of its ramps in the order of the source, all ending at
  \<open>currentTime + 0.02\<close>. Its two other effects, reconnecting the bit-crusher node and
  recomputing the distortion curve, set no parameter of the delay and are left out.
\<close>

definition updateFxChain :: "fx_state \<Rightarrow> real \<Rightarrow> ramp list" where
  "updateFxChain fx time =
     (let rampTime = time + 2 / 100 in
      [(LowPassFilter_frequency, if isLpfOn fx then lowPassFreq fx else 22050, rampTime),
       (HighPassFilter_frequency, if isHpfOn fx then highPassFreq fx else 20, rampTime),
       (BitCrusherBypass_gain, if isBitCrusherOn fx then 0 else 1, rampTime),
       (DistortionBypass_gain, if isDistortionOn fx then 0 else 1, rampTime),
       (PhaserLFO_frequency, phaserRate fx, rampTime),
       (PhaserLfoGain_gain, 2000, rampTime),
       (PhaserWet_gain, phaserMix fx, rampTime),
       (PhaserBypass_gain, if isPhaserOn fx then 1 - phaserMix fx else 1, rampTime),
       (DelayNode_delayTime, delayTime fx, rampTime),
       (DelayFeedbackGain_gain, delayFeedback fx, rampTime),
       (DelayWet_gain, delayMix fx, rampTime),
       (DelayBypass_gain, if isDelayOn fx then 1 - delayMix fx else 1, rampTime),
       (ReverbWet_gain, reverbMix fx, rampTime),
       (ReverbBypass_gain, if isReverbOn fx then 1 - reverbMix fx else 1, rampTime),
       (VinylNoiseGain_gain, if isVinylSimOn fx then vinylCrackle fx else 0, rampTime)])"

text \<open>
  \<open>handleControlChange\<close>: the \<open>switch\<close> over the label of the control stores the value
  as it comes. The four music controls send a new generation config to the session, which
  is outside this model; every other label, known or not, ends in \<open>updateFxChain\<close>.
\<close>

definition handleControlChange :: "fx_state \<Rightarrow> real \<Rightarrow> real \<Rightarrow> string \<Rightarrow> fx_state \<times> ramp list" where
  "handleControlChange fx time val label =
     (let fx' =
        (if label = ''LPF'' then fx\<lparr>lowPassFreq := val\<rparr>
         else if label = ''HPF'' then fx\<lparr>highPassFreq := val\<rparr>
         else if label = ''Distort'' then fx\<lparr>distortionAmount := val\<rparr>
         else if label = ''Phaser Rate'' then fx\<lparr>phaserRate := val\<rparr>
         else if label = ''Phaser Mix'' then fx\<lparr>phaserMix := val\<rparr>
         else if label = ''Delay Time'' then fx\<lparr>delayTime := val\<rparr>
         else if label = ''Delay Fbk'' then fx\<lparr>delayFeedback := val\<rparr>
         else if label = ''Delay Mix'' then fx\<lparr>delayMix := val\<rparr>
         else if label = ''Reverb'' then fx\<lparr>reverbMix := val\<rparr>
         else if label = ''Bits'' then fx\<lparr>bitDepth := val\<rparr>
         else if label = ''Rate'' then fx\<lparr>sampleRateReduction := val\<rparr>
         else if label = ''Crackle'' then fx\<lparr>vinylCrackle := val\<rparr>
         else if label = ''BPM'' then fx\<lparr>bpm := val\<rparr>
         else if label = ''Temp'' then fx\<lparr>temperature := val\<rparr>
         else if label = ''Diversity'' then fx\<lparr>topK := val\<rparr>
         else if label = ''Guidance'' then fx\<lparr>guidanceScale := val\<rparr>
         else fx);
          configChanged = (label = ''BPM'' \<or> label = ''Temp'' \<or> label = ''Diversity''
                           \<or> label = ''Guidance'')
      in (fx', if configChanged then [] else updateFxChain fx' time))"

definition handleFxToggle :: "fx_state \<Rightarrow> real \<Rightarrow> string \<Rightarrow> fx_state \<times> ramp list" where
  "handleFxToggle fx time effect =
     (let fx' =
        (if effect = ''LPF'' then fx\<lparr>isLpfOn := \<not> isLpfOn fx\<rparr>
         else if effect = ''HPF'' then fx\<lparr>isHpfOn := \<not> isHpfOn fx\<rparr>
         else if effect = ''Distortion'' then fx\<lparr>isDistortionOn := \<not> isDistortionOn fx\<rparr>
         else if effect = ''Phaser'' then fx\<lparr>isPhaserOn := \<not> isPhaserOn fx\<rparr>
         else if effect = ''Delay'' then fx\<lparr>isDelayOn := \<not> isDelayOn fx\<rparr>
         else if effect = ''Reverb'' then fx\<lparr>isReverbOn := \<not> isReverbOn fx\<rparr>
         else if effect = ''Bit Crush'' then fx\<lparr>isBitCrusherOn := \<not> isBitCrusherOn fx\<rparr>
         else if effect = ''Vinyl Sim'' then fx\<lparr>isVinylSimOn := \<not> isVinylSimOn fx\<rparr>
         else fx)
      in (fx', updateFxChain fx' time))"

text \<open>
  \<open>updateKaossFx\<close>: the active program maps the pad position to absolute parameter
  values. \<open>Math.pow(18000/100, x)\<close> is \<open>180 powr x\<close>.
\<close>

definition updateKaossFx :: "fx_state \<Rightarrow> real \<Rightarrow> fx_state \<times> ramp list" where
  "updateKaossFx fx time =
     (let x = fst (kaossXY fx);
          y = snd (kaossXY fx);
          invertedY = 1 - y;
          fx' =
            (if activeKaossProgram fx = ''LPF Sweep Delay''
             then fx\<lparr>lowPassFreq := 100 * (180 powr x),
                     delayFeedback := invertedY * (85 / 100),
                     delayMix := 2 / 10 + invertedY * (7 / 10),
                     isLpfOn := True, isDelayOn := True, isHpfOn := False,
                     isReverbOn := False, reverbMix := 0\<rparr>
             else if activeKaossProgram fx = ''HPF + Reverb Wash''
             then fx\<lparr>highPassFreq := 60 * ((2000 / 60) powr x),
                     reverbMix := 15 / 100 + invertedY * (65 / 100),
                     isHpfOn := True, isReverbOn := True, isLpfOn := False,
                     isDelayOn := False, delayMix := 0\<rparr>
             else fx)
      in (fx', updateFxChain fx' time))"

text \<open>
  \<open>updateKaossPosition\<close>, for a pad that is rendered and has a size: the arguments are
  the pointer's offsets divided by the width and the height of the pad, which the function
  clamps to \<open>[0, 1]\<close>.
\<close>

definition updateKaossPosition :: "fx_state \<Rightarrow> real \<Rightarrow> real \<Rightarrow> real \<Rightarrow> fx_state \<times> ramp list" where
  "updateKaossPosition fx time rx ry =
     (let x = max 0 (min 1 rx);
          y = max 0 (min 1 ry)
      in updateKaossFx (fx\<lparr>kaossXY := (x, y)\<rparr>) time)"

definition resetFxToNeutral :: "fx_state \<Rightarrow> real \<Rightarrow> fx_state \<times> ramp list" where
  "resetFxToNeutral fx time =
     (let fx' = fx\<lparr>reverbMix := 0, delayMix := 0, lowPassFreq := 22050, highPassFreq := 20\<rparr>
      in (fx', updateFxChain fx' time))"

definition handleKaossProgramChange :: "fx_state \<Rightarrow> real \<Rightarrow> string \<Rightarrow> fx_state \<times> ramp list" where
  "handleKaossProgramChange fx time program =
     (let fx' = fx\<lparr>activeKaossProgram := program\<rparr>
      in if isKaossActive fx' then updateKaossFx fx' time else (fx', []))"

text \<open>
  \<open>handleKaossPointerDown\<close>; \<open>doubleTap\<close> says whether the previous tap was less than
  300 ms ago.
\<close>

definition handleKaossPointerDown ::
  "fx_state \<Rightarrow> real \<Rightarrow> bool \<Rightarrow> real \<Rightarrow> real \<Rightarrow> fx_state \<times> ramp list" where
  "handleKaossPointerDown fx time doubleTap rx ry =
     (let fx1 = fx\<lparr>isKaossActive := True\<rparr>;
          fx2 = (if doubleTap then fx1\<lparr>isKaossHeld := \<not> isKaossHeld fx1\<rparr> else fx1);
          ramps = updateFxChain fx2 time
      in case updateKaossPosition fx2 time rx ry of (fx3, ramps') \<Rightarrow> (fx3, ramps @ ramps'))"

definition handleKaossPointerMove :: "fx_state \<Rightarrow> real \<Rightarrow> real \<Rightarrow> real \<Rightarrow> fx_state \<times> ramp list" where
  "handleKaossPointerMove fx time rx ry =
     (if \<not> isKaossActive fx then (fx, []) else updateKaossPosition fx time rx ry)"

text \<open>
  \<open>handleKaossPointerUp\<close> ramps the two wet gains to 0 over 250 ms and sets a timeout,
  whose callback is \<open>kaossReleaseTimeout\<close>.
\<close>

definition handleKaossPointerUp :: "fx_state \<Rightarrow> real \<Rightarrow> fx_state \<times> ramp list" where
  "handleKaossPointerUp fx time =
     (if isKaossHeld fx then (fx, [])
      else (fx\<lparr>isKaossActive := False\<rparr>,
            [(ReverbWet_gain, 0, time + 25 / 100), (DelayWet_gain, 0, time + 25 / 100)]))"

definition kaossReleaseTimeout :: "fx_state \<Rightarrow> real \<Rightarrow> fx_state \<times> ramp list" where
  "kaossReleaseTimeout fx time =
     (if isKaossActive fx then (fx, []) else resetFxToNeutral fx time)"

text \<open>
  The events that change the effect parameters, each with the value of
  \<open>audioContext.currentTime\<close> when it is handled, and a run of the program over a list
  of events that collects the ramps applied to the audio graph.
\<close>

datatype fx_event =
    ControlChange real string
  | FxToggle string
  | KaossPointerDown bool real real
  | KaossPointerMove real real
  | KaossPointerUp
  | KaossReleaseTimeout
  | KaossHoldButton
  | KaossProgramChange string

fun fx_step :: "fx_state \<Rightarrow> real \<Rightarrow> fx_event \<Rightarrow> fx_state \<times> ramp list" where
  "fx_step fx time (ControlChange val label) = handleControlChange fx time val label"
| "fx_step fx time (FxToggle effect) = handleFxToggle fx time effect"
| "fx_step fx time (KaossPointerDown doubleTap rx ry) = handleKaossPointerDown fx time doubleTap rx ry"
| "fx_step fx time (KaossPointerMove rx ry) = handleKaossPointerMove fx time rx ry"
| "fx_step fx time KaossPointerUp = handleKaossPointerUp fx time"
| "fx_step fx time KaossReleaseTimeout = kaossReleaseTimeout fx time"
| "fx_step fx time KaossHoldButton = (fx\<lparr>isKaossHeld := \<not> isKaossHeld fx\<rparr>, [])"
| "fx_step fx time (KaossProgramChange program) = handleKaossProgramChange fx time program"

fun fx_run :: "fx_state \<Rightarrow> (real \<times> fx_event) list \<Rightarrow> fx_state \<times> ramp list" where
  "fx_run fx [] = (fx, [])"
| "fx_run fx ((time, ev) # evs) =
     (case fx_step fx time ev of
        (fx', ramps) \<Rightarrow> (case fx_run fx' evs of (fx'', ramps') \<Rightarrow> (fx'', ramps @ ramps')))"

text \<open>
  The constructor ends with \<open>updateFxChain\<close> on the initial parameters; \<open>start_time\<close>
  is the clock value then.
\<close>

definition fx_trace :: "real \<Rightarrow> (real \<times> fx_event) list \<Rightarrow> fx_state \<times> ramp list" where
  "fx_trace start_time evs =
     (case fx_run fx_initial evs of (fx, ramps) \<Rightarrow> (fx, updateFxChain fx_initial start_time @ ramps))"

text \<open>The feedback values that reach the feedback gain node.\<close>

definition feedback_targets :: "ramp list \<Rightarrow> real list" where
  "feedback_targets ramps = map (\<lambda>r. fst (snd r)) (filter (\<lambda>r. fst r = DelayFeedbackGain_gain) ramps)"

text \<open>
  An event that does not bring a feedback of 1 or more from outside: a control change
  labelled \<open>Delay Fbk\<close> with a value below 1, or any other event.
\<close>

fun feedback_input_below_one :: "fx_event \<Rightarrow> bool" where
  "feedback_input_below_one (ControlChange val label) = (if label = ''Delay Fbk'' then val < 1 else True)"
| "feedback_input_below_one _ = True"

text \<open>
  The invariant of the effect parameters behind the bound on the feedback: the stored
  feedback is below 1 and the stored pad position has its \<open>y\<close> in \<open>[0, 1]\<close>. A result
  of a handler is fine when its state has the invariant and every feedback value among
  its ramps is below 1.
\<close>

definition fx_inv :: "fx_state \<Rightarrow> bool" where
  "fx_inv fx = (delayFeedback fx < 1 \<and> 0 \<le> snd (kaossXY fx) \<and> snd (kaossXY fx) \<le> 1)"

definition fb_ok :: "fx_state \<times> ramp list \<Rightarrow> bool" where
  "fb_ok r = (fx_inv (fst r) \<and> list_all (\<lambda>v. v < 1) (feedback_targets (snd r)))"

section \<open>index.tsx: the bit-crusher\<close>

text \<open>\<open>Math.round\<close> rounds to the nearest integer, a half towards plus infinity.\<close>

definition Math_round :: "real \<Rightarrow> int" where
  "Math_round x = \<lfloor>x + 1 / 2\<rfloor>"

text \<open>
  The test \<^verbatim>\<open>i % srr === 0\<close> for an index \<open>i\<close> and an integer \<open>srr\<close>: the remainder of
  JavaScript takes the sign of \<open>i\<close>, which is not negative, and \<open>i % 0\<close> is \<open>NaN\<close>.
\<close>

definition rem_is_zero :: "nat \<Rightarrow> int \<Rightarrow> bool" where
  "rem_is_zero i srr = (srr \<noteq> 0 \<and> int i mod \<bar>srr\<bar> = 0)"

text \<open>Both assignments to an output sample: \<^verbatim>\<open>step * Math.floor(held / step + 0.5)\<close>.\<close>

definition quantize :: "real \<Rightarrow> real \<Rightarrow> real" where
  "quantize step held = step * real_of_int \<lfloor>held / step + 1 / 2\<rfloor>"

text \<open>
  The loop of \<open>bitCrusherProcess\<close> over the \<open>len\<close> frames of a block. The pair \<open>held\<close>
  is the field \<open>bitCrusherLastSample\<close>, which outlives the call.
\<close>

function bitCrusher_loop ::
  "real \<Rightarrow> int \<Rightarrow> real list \<Rightarrow> real list \<Rightarrow> nat \<Rightarrow> nat \<Rightarrow> real \<times> real \<Rightarrow> real list \<Rightarrow> real list
   \<Rightarrow> (real \<times> real) \<times> real list \<times> real list" where
  "bitCrusher_loop step srr inputL inputR len i held outputL outputR =
     (if i < len
      then
        let held' = (if rem_is_zero i srr then (inputL ! i, inputR ! i) else held)
        in bitCrusher_loop step srr inputL inputR len (i + 1) held'
             (outputL[i := quantize step (fst held')])
             (outputR[i := quantize step (snd held')])
      else (held, outputL, outputR))"
  by pat_completeness auto
termination
  by (relation "measure (\<lambda>(s, r, il, ir, n, i, h, ol, or). n - i)") auto

declare bitCrusher_loop.simps [simp del]

text \<open>
  \<open>bitCrusherProcess(e)\<close> reads \<open>bitDepth\<close> and \<open>sampleRateReduction\<close> from the
  effect parameters and takes the field \<open>bitCrusherLastSample\<close> as \<open>held\<close>; it returns
  the new \<open>bitCrusherLastSample\<close> and the output buffer. \<open>getChannelData\<close> throws
  \<open>IndexSizeError\<close> for a channel the buffer does not have; the node is created with two
  input and two output channels.
\<close>

definition bitCrusherProcess ::
  "fx_state \<Rightarrow> real \<times> real \<Rightarrow> audio_buffer \<Rightarrow> audio_buffer
   \<Rightarrow> js_error + (real \<times> real) \<times> audio_buffer" where
  "bitCrusherProcess fx held inputBuffer outputBuffer =
     (if length (channelData inputBuffer) < 2 \<or> length (channelData outputBuffer) < 2
      then Inl IndexSizeError
      else
        let inputL = channelData inputBuffer ! 0;
            inputR = channelData inputBuffer ! 1;
            outputL = channelData outputBuffer ! 0;
            outputR = channelData outputBuffer ! 1;
            step = (1 / 2) powr bitDepth fx;
            srr = Math_round (sampleRateReduction fx)
        in case bitCrusher_loop step srr inputL inputR (buffer_length inputBuffer) 0 held
                  outputL outputR of
             (held', outL, outR) \<Rightarrow>
               Inr (held', outputBuffer\<lparr>channelData := (channelData outputBuffer)[0 := outL, 1 := outR]\<rparr>))"

text \<open>
  A buffer of the audio API has \<open>numberOfChannels\<close> channels of \<open>buffer_length\<close> frames.
\<close>

definition well_formed_buffer :: "audio_buffer \<Rightarrow> bool" where
  "well_formed_buffer ab =
     (length (channelData ab) = numberOfChannels ab
      \<and> list_all (\<lambda>chan. length chan = buffer_length ab) (channelData ab))"

section \<open>index.tsx: the playback scheduler of \<open>PromptDj\<close>\<close>

datatype playback_state = Stopped | Playing | Loading | Paused

text \<open>
  The nodes of the audio graph. \<open>OutputGain k\<close> is the \<open>k\<close>-th gain node that was ever
  assigned to the field \<open>outputNode\<close>; \<open>PhaserStageDetune i\<close> is the \<open>detune\<close> parameter
  of a phaser stage, which the LFO modulates; \<open>RecorderNode\<close> is the script processor of
  a recording.
\<close>

datatype node =
    OutputGain nat | MasterOut | AnalyserNode | LowPassFilter | HighPassFilter
  | BitCrusherNode | BitCrusherBypass | DistortionNode | DistortionBypass
  | PhaserStage nat | PhaserStageDetune nat | PhaserLFO | PhaserLfoGain | PhaserBypass
  | PhaserWet | DelayNode | DelayFeedbackGain | DelayBypass | DelayWet
  | ReverbNode | ReverbBypass | ReverbWet | VinylNoiseNode | VinylNoiseGain
  | RecorderNode | Destination

text \<open>
  An \<open>AudioBufferSourceNode\<close> made by the chunk handler: its buffer, the node it is
  connected to, and the time it was started for, if it was started.
\<close>

record source_node =
  src_buffer :: audio_buffer
  src_sink :: node
  src_start :: "real option"

datatype timer_action = SetPlaybackStatePlaying

datatype automation = SetValueAtTime real real | LinearRampToValueAtTime real real

datatype session_call = SessionPause | SessionPlay | SessionStop

text \<open>
  The fields of the class that the scheduler uses. \<open>connections\<close> holds the calls of
  \<open>connect\<close> that are in force, \<open>timeouts\<close> the calls of \<open>setTimeout\<close> with their delay
  in milliseconds, \<open>masterOutGain\<close> the automation of \<open>masterOut.gain\<close> and
  \<open>sessionCalls\<close> the commands sent to the music session, each in the order of the calls.
\<close>

record player =
  playbackState :: playback_state
  nextStartTime :: real
  outputNode :: node
  outputNodesCreated :: nat
  connections :: "(node \<times> node) list"
  sources :: "source_node list"
  timeouts :: "(real \<times> timer_action) list"
  masterOutGain :: "automation list"
  isRecording :: bool
  sessionCalls :: "session_call list"

definition bufferTime :: real where
  "bufferTime = 2"

text \<open>\<open>node.disconnect()\<close> removes every connection that leaves the node.\<close>

definition disconnect :: "node \<Rightarrow> (node \<times> node) list \<Rightarrow> (node \<times> node) list" where
  "disconnect n cs = filter (\<lambda>c. fst c \<noteq> n) cs"

text \<open>
  The calls of \<open>connect\<close> in the constructor, in its order. The constructor then calls
  \<open>updateFxChain\<close>, which disconnects the bit-crusher node because \<open>isBitCrusherOn\<close>
  starts as false.
\<close>

definition constructor_connections :: "(node \<times> node) list" where
  "constructor_connections =
     [(PhaserLFO, PhaserLfoGain), (PhaserLfoGain, PhaserStageDetune 0),
      (PhaserLFO, PhaserLfoGain), (PhaserLfoGain, PhaserStageDetune 1),
      (PhaserLFO, PhaserLfoGain), (PhaserLfoGain, PhaserStageDetune 2),
      (PhaserLFO, PhaserLfoGain), (PhaserLfoGain, PhaserStageDetune 3),
      (OutputGain 0, LowPassFilter), (LowPassFilter, HighPassFilter),
      (HighPassFilter, BitCrusherNode), (HighPassFilter, BitCrusherBypass),
      (BitCrusherNode, DistortionNode), (BitCrusherNode, DistortionBypass),
      (BitCrusherBypass, DistortionNode), (BitCrusherBypass, DistortionBypass),
      (DistortionNode, PhaserBypass), (DistortionBypass, PhaserBypass),
      (DistortionNode, PhaserStage 0), (DistortionBypass, PhaserStage 0),
      (PhaserStage 0, PhaserStage 1), (PhaserStage 1, PhaserStage 2),
      (PhaserStage 2, PhaserStage 3), (PhaserStage 3, PhaserWet),
      (PhaserBypass, DelayBypass), (PhaserWet, DelayBypass),
      (PhaserBypass, DelayNode), (PhaserWet, DelayNode),
      (DelayNode, DelayFeedbackGain), (DelayFeedbackGain, DelayNode), (DelayNode, DelayWet),
      (DelayBypass, ReverbBypass), (DelayWet, ReverbBypass),
      (DelayBypass, ReverbNode), (DelayWet, ReverbNode), (ReverbNode, ReverbWet),
      (ReverbBypass, AnalyserNode), (ReverbWet, AnalyserNode),
      (VinylNoiseNode, VinylNoiseGain), (VinylNoiseGain, AnalyserNode),
      (AnalyserNode, MasterOut), (MasterOut, Destination)]"

definition player_initial :: player where
  "player_initial =
     \<lparr>playbackState = Stopped, nextStartTime = 0, outputNode = OutputGain 0,
      outputNodesCreated = 1,
      connections = disconnect BitCrusherNode constructor_connections,
      sources = [], timeouts = [], masterOutGain = [], isRecording = False,
      sessionCalls = []\<rparr>"

text \<open>
  \<open>source.start(when)\<close> throws \<open>RangeError\<close> for a negative time. The source is the one
  made last.
\<close>

definition start_last_source :: "real \<Rightarrow> source_node list \<Rightarrow> js_error + source_node list" where
  "start_last_source when srcs =
     (if when < 0 then Inl RangeError
      else Inr (butlast srcs @ [(last srcs)\<lparr>src_start := Some when\<rparr>]))"

text \<open>
  The branch of \<open>onmessage\<close> for a message with audio data, from the test of the playback
  state to the end. \<open>data\<close> are the bytes that \<open>decode\<close> made of the base64 text and
  \<open>currentTime\<close> is \<open>audioContext.currentTime\<close>, which does not change while the
  handler runs. The \<open>await\<close> of \<open>decodeAudioData\<close>, which itself awaits nothing, resumes
  before any other event is handled, so the handler is one step.
\<close>

definition on_audio_chunk :: "player \<Rightarrow> real \<Rightarrow> byte list \<Rightarrow> js_error + player" where
  "on_audio_chunk st currentTime data =
     (if playbackState st = Paused \<or> playbackState st = Stopped then Inr st
      else
        case decodeAudioData data 48000 2 of
          Inl e \<Rightarrow> Inl e
        | Inr audioBuffer \<Rightarrow>
            let source = \<lparr>src_buffer = audioBuffer, src_sink = outputNode st, src_start = None\<rparr>;
                st1 = st\<lparr>sources := sources st @ [source]\<rparr>;
                st2 = (if nextStartTime st1 = 0
                       then st1\<lparr>nextStartTime := currentTime + bufferTime,
                                timeouts := timeouts st1 @ [(bufferTime * 1000, SetPlaybackStatePlaying)]\<rparr>
                       else st1)
            in if nextStartTime st2 < currentTime
               then Inr (st2\<lparr>playbackState := Loading, nextStartTime := 0\<rparr>)
               else
                 case start_last_source (nextStartTime st2) (sources st2) of
                   Inl e \<Rightarrow> Inl e
                 | Inr srcs \<Rightarrow>
                     Inr (st2\<lparr>sources := srcs,
                              nextStartTime := nextStartTime st2 + duration audioBuffer\<rparr>))"

text \<open>The callback of the handler's \<open>setTimeout\<close>.\<close>

definition run_timer_action :: "player \<Rightarrow> timer_action \<Rightarrow> player" where
  "run_timer_action st a = (case a of SetPlaybackStatePlaying \<Rightarrow> st\<lparr>playbackState := Playing\<rparr>)"

text \<open>
  \<open>handleRecord\<close>, as far as it touches the fields of the model. Stopping a recording
  disconnects the recorder and the analyser and connects the analyser to \<open>masterOut\<close>
  again; starting one, which needs the state playing, puts the recorder between the
  analyser and \<open>masterOut\<close>. The MP3 encoder and the download are outside the model.
\<close>

definition handleRecord :: "player \<Rightarrow> player" where
  "handleRecord st =
     (if isRecording st
      then st\<lparr>isRecording := False,
              connections := disconnect AnalyserNode (disconnect RecorderNode (connections st))
                               @ [(AnalyserNode, MasterOut)]\<rparr>
      else if playbackState st \<noteq> Playing then st
      else st\<lparr>isRecording := True,
              connections := disconnect AnalyserNode (connections st)
                               @ [(AnalyserNode, RecorderNode), (RecorderNode, MasterOut)]\<rparr>)"

definition pauseAudio :: "player \<Rightarrow> real \<Rightarrow> player" where
  "pauseAudio st currentTime =
     (let st1 = (if isRecording st then handleRecord st else st);
          st2 = st1\<lparr>sessionCalls := sessionCalls st1 @ [SessionPause],
                    playbackState := Paused,
                    masterOutGain := masterOutGain st1
                      @ [SetValueAtTime 1 currentTime, LinearRampToValueAtTime 0 (currentTime + 1 / 10)],
                    nextStartTime := 0\<rparr>;
          fresh = OutputGain (outputNodesCreated st2)
      in st2\<lparr>outputNode := fresh,
             outputNodesCreated := outputNodesCreated st2 + 1,
             connections := connections st2 @ [(fresh, LowPassFilter)]\<rparr>)"

definition loadAudio :: "player \<Rightarrow> real \<Rightarrow> player" where
  "loadAudio st currentTime =
     st\<lparr>sessionCalls := sessionCalls st @ [SessionPlay],
        playbackState := Loading,
        masterOutGain := masterOutGain st
          @ [SetValueAtTime 0 currentTime, LinearRampToValueAtTime 1 (currentTime + 1 / 10)]\<rparr>"

definition stopAudio :: "player \<Rightarrow> real \<Rightarrow> player" where
  "stopAudio st currentTime =
     (let st1 = (if isRecording st then handleRecord st else st)
      in st1\<lparr>sessionCalls := sessionCalls st1 @ [SessionStop],
             playbackState := Stopped,
             masterOutGain := masterOutGain st1 @ [SetValueAtTime 1 currentTime],
             nextStartTime := 0\<rparr>)"

text \<open>
  The segments that were given a start time, as pairs of start time and duration, in the
  order in which their sources were made.
\<close>

definition scheduled :: "player \<Rightarrow> (real \<times> real) list" where
  "scheduled st =
     List.map_filter (\<lambda>s. map_option (\<lambda>t. (t, duration (src_buffer s))) (src_start s)) (sources st)"

text \<open>
  The handler over a list of deliveries, each with the clock value at which it is handled:
  the first exception ends the run.
\<close>

fun chunk_run :: "player \<Rightarrow> (real \<times> byte list) list \<Rightarrow> js_error + player" where
  "chunk_run st [] = Inr st"
| "chunk_run st ((currentTime, data) # rest) =
     (case on_audio_chunk st currentTime data of
        Inl e \<Rightarrow> Inl e
      | Inr st' \<Rightarrow> chunk_run st' rest)"

text \<open>
  The scheduler clock is valid at every delivery of a run: when the handler starts,
  \<open>nextStartTime\<close> is not the sentinel 0 and is not behind the device clock, which is
  never negative.
\<close>

fun clock_valid_run :: "player \<Rightarrow> (real \<times> byte list) list \<Rightarrow> bool" where
  "clock_valid_run st [] = True"
| "clock_valid_run st ((currentTime, data) # rest) =
     (0 \<le> currentTime \<and> nextStartTime st \<noteq> 0 \<and> \<not> nextStartTime st < currentTime
      \<and> (case on_audio_chunk st currentTime data of
            Inl e \<Rightarrow> True
          | Inr st' \<Rightarrow> clock_valid_run st' rest))"

text \<open>
  Every operation that sets the state to paused or stopped resets the clock, and only the
  handler, which does nothing in these states, sets the clock: while paused or stopped
  the clock is the sentinel.
\<close>

definition player_inv :: "player \<Rightarrow> bool" where
  "player_inv st = (if playbackState st = Paused \<or> playbackState st = Stopped
                    then nextStartTime st = 0 else True)"

text \<open>A list of nodes is a path of the graph when each node is connected to the next.\<close>

fun is_path :: "(node \<times> node) list \<Rightarrow> node list \<Rightarrow> bool" where
  "is_path cs (a # b # rest) = (List.member cs (a, b) \<and> is_path cs (b # rest))"
| "is_path cs _ = True"

text \<open>
  A list of segments, as pairs of start time and duration, that begins at \<open>t\<close> and in
  which every segment begins where the one before it ends.
\<close>

fun gapless_from :: "real \<Rightarrow> (real \<times> real) list \<Rightarrow> bool" where
  "gapless_from t [] = True"
| "gapless_from t (seg # rest) = (fst seg = t \<and> gapless_from (t + snd seg) rest)"

text \<open>
  A session in which playback is paused while a segment is scheduled ahead, and resumed
  before that segment begins: play at 0; a chunk of one second (192000 bytes) at 1, which
  is scheduled for 3; the timeout at 3; a second chunk at 3.1, which is scheduled for 4;
  pause at 3.2; play again at 3.5.
\<close>

definition pause_resume_session :: "js_error + player" where
  "pause_resume_session =
     (case on_audio_chunk (loadAudio player_initial 0) 1 (replicate 192000 0) of
        Inl e \<Rightarrow> Inl e
      | Inr s2 \<Rightarrow>
          (case on_audio_chunk (run_timer_action s2 SetPlaybackStatePlaying) (31 / 10)
                  (replicate 192000 0) of
             Inl e \<Rightarrow> Inl e
           | Inr s4 \<Rightarrow> Inr (loadAudio (pauseAudio s4 (32 / 10)) (35 / 10))))"

section \<open>Facts about the encoder\<close>

lemma createBlobFromFloat32_data:
  "blob_data (createBlobFromFloat32 btoa samples)
     = btoa (map (\<lambda>b. char_of (unat b)) (pcm16_bytes samples))"
  by (simp add: createBlobFromFloat32_def encode_def)

lemma sint_toInt16:
  assumes "- 32768 \<le> x" and "x \<le> 32767"
  shows "sint (toInt16 x) = (if x < 0 then \<lceil>x\<rceil> else \<lfloor>x\<rfloor>)"
proof -
  let ?v = "if x < 0 then \<lceil>x\<rceil> else \<lfloor>x\<rfloor>"
  have lo: "- (2 ^ 15) \<le> ?v"
    using assms by (auto simp: le_floor_iff le_ceiling_iff)
  have hi: "?v < 2 ^ 15"
    using assms by (auto simp: floor_less_iff ceiling_less_iff)
  have "sint (word_of_int ?v :: int16) = ?v"
    unfolding sint_sbintrunc' using lo hi by (simp add: signed_take_bit_int_eq_self)
  then show ?thesis by (simp add: toInt16_def)
qed

lemma sint_pcm_sample:
  "sint (pcm_sample s) =
     (let c = max (- 32768) (min 32767 (s * 32768)) in if c < 0 then \<lceil>c\<rceil> else \<lfloor>c\<rfloor>)"
  unfolding pcm_sample_def Let_def by (rule sint_toInt16) simp_all

lemma sint_int16_range: "- 32768 \<le> sint (w :: int16) \<and> sint w \<le> 32767"
  using sint_ge [of w] sint_lt [of w] by simp

lemma int16_bytes_little_endian:
  "map unat (int16_bytes w) = [unat w mod 256, unat w div 256]"
proof -
  have "unat w < 2 ^ 16"
    using unsigned_less [of w] by simp
  then have "unat w div 256 < 256" by simp
  then show ?thesis
    by (simp add: int16_bytes_def unsigned_ucast_eq unat_drop_bit_eq take_bit_eq_mod
        drop_bit_eq_div unat_div)
qed

lemma word_cat_int16_bytes:
  "word_cat (ucast (drop_bit 8 w) :: byte) (ucast w :: byte) = (w :: int16)"
  by (rule bit_word_eqI) (auto simp: bit_word_cat_iff bit_ucast_iff bit_drop_bit_eq)

text \<open>
  C4 (as the code has it). The encoder does not round: the clamped product
  \<open>max (-32768) (min 32767 (s * 32768))\<close> is stored into an \<open>Int16Array\<close>, which drops
  its fraction towards zero. For every finite sample the stored value is that truncation,
  it lies in the signed 16-bit range, and its two bytes are the low byte followed by the
  high byte of its two's complement. The encoder is a function of the sample alone.
\<close>

theorem pcm_sample_truncates:
  "sint (pcm_sample s) =
     (let c = max (- 32768) (min 32767 (s * 32768)) in if c < 0 then \<lceil>c\<rceil> else \<lfloor>c\<rfloor>)
   \<and> - 32768 \<le> sint (pcm_sample s) \<and> sint (pcm_sample s) \<le> 32767
   \<and> map unat (int16_bytes (pcm_sample s))
       = [unat (pcm_sample s) mod 256, unat (pcm_sample s) div 256]"
  using sint_pcm_sample [of s] sint_int16_range [of "pcm_sample s"]
    int16_bytes_little_endian [of "pcm_sample s"]
  by simp

text \<open>
  C4 (as stated) fails: the sample \<open>3 / 131072\<close> is a \<open>float32\<close>, its product with
  \<open>32768\<close> is \<open>0.75\<close>, which the code stores as \<open>0\<close> and the formula of the
  specification rounds to \<open>1\<close>.
\<close>

theorem pcm_sample_not_rounded:
  "sint (pcm_sample (3 / 131072)) = 0 \<and> spec_encodePcm16_sample (3 / 131072) = 1"
  by (simp add: pcm_sample_def toInt16_def spec_encodePcm16_sample_def round_def)

section \<open>Facts about the decoder\<close>

lemma numSamples_div:
  "nat \<lfloor>real n / 2 / real nc\<rfloor> = n div (2 * nc)"
proof -
  have "real n / 2 / real nc = real n / real (2 * nc)" by simp
  then show ?thesis
    by (simp only: floor_divide_of_nat_eq nat_int)
qed

lemma sample_loop_closed:
  assumes "length chan = n" and "i \<le> n" and "2 * (n * nc) \<le> length view" and "c < nc"
  shows "sample_loop view nc n i (2 * (i * nc + c)) chan
         = Inr (take i chan @ map (\<lambda>k. int16_at view (2 * (k * nc + c))) [i..<n])"
  using assms
proof (induction "n - i" arbitrary: i chan)
  case 0
  then show ?case by (simp add: sample_loop.simps)
next
  case (Suc m)
  then have lt: "i < n" and m: "m = n - (i + 1)" by simp_all
  have "i * nc + c < n * nc"
  proof -
    have "i * nc + c < (i + 1) * nc" using \<open>c < nc\<close> by simp
    also have "\<dots> \<le> n * nc" using lt by (intro mult_le_mono1) simp
    finally show ?thesis .
  qed
  then have inr: "2 * (i * nc + c) + 2 \<le> length view"
    using Suc.prems(3) by simp
  let ?v = "int16_at view (2 * (i * nc + c))"
  have step: "2 * (i * nc + c) + nc * 2 = 2 * ((i + 1) * nc + c)" by (simp add: algebra_simps)
  have ih: "sample_loop view nc n (i + 1) (2 * ((i + 1) * nc + c)) (chan[i := ?v])
        = Inr (take (i + 1) (chan[i := ?v]) @ map (\<lambda>k. int16_at view (2 * (k * nc + c))) [i + 1..<n])"
    using Suc.hyps(1) [OF m, of "chan[i := ?v]"] Suc.prems lt by simp
  have tk: "take (i + 1) (chan[i := ?v]) = take i chan @ [?v]"
    using lt Suc.prems(1) by (simp add: take_Suc_conv_app_nth)
  have "sample_loop view nc n i (2 * (i * nc + c)) chan
        = sample_loop view nc n (i + 1) (2 * (i * nc + c) + nc * 2) (chan[i := ?v])"
    using lt inr by (subst sample_loop.simps) (simp add: getInt16_def int16_at_def)
  then show ?case
    using ih tk lt by (simp only: step) (simp add: upt_conv_Cons)
qed

lemma sample_loop_from_start:
  assumes "length chan = n" and "2 * (n * nc) \<le> length view" and "c < nc"
  shows "sample_loop view nc n 0 (c * 2) chan = Inr (decoded_channel view nc n c)"
  using sample_loop_closed [OF assms(1) _ assms(2) assms(3), of 0]
  by (simp add: decoded_channel_def mult.commute)

lemma channel_loop_closed:
  assumes "length (channelData ab) = nc" and "c \<le> nc" and "2 * (n * nc) \<le> length view"
    and "\<forall>ch < nc. length (channelData ab ! ch) = n"
  shows "channel_loop view nc n c ab
         = Inr (ab\<lparr>channelData := take c (channelData ab) @ map (decoded_channel view nc n) [c..<nc]\<rparr>)"
  using assms
proof (induction "nc - c" arbitrary: c ab)
  case 0
  then show ?case by (simp add: channel_loop.simps)
next
  case (Suc m)
  then have lt: "c < nc" and m: "m = nc - (c + 1)" by simp_all
  let ?d = "decoded_channel view nc n c"
  let ?ab = "ab\<lparr>channelData := (channelData ab)[c := ?d]\<rparr>"
  have len: "length (channelData ab ! c) = n" using Suc.prems(4) lt by simp
  have inner: "sample_loop view nc n 0 (c * 2) (channelData ab ! c) = Inr ?d"
    by (rule sample_loop_from_start [OF len Suc.prems(3) lt])
  have dl: "length ?d = n" by (simp add: decoded_channel_def)
  have pre: "\<forall>ch < nc. length (channelData ?ab ! ch) = n"
  proof (intro allI impI)
    fix ch
    assume ch: "ch < nc"
    show "length (channelData ?ab ! ch) = n"
    proof (cases "ch = c")
      case True
      then show ?thesis using lt Suc.prems(1) dl by simp
    next
      case False
      then show ?thesis using Suc.prems(4) ch by simp
    qed
  qed
  have ih: "channel_loop view nc n (c + 1) ?ab
        = Inr (?ab\<lparr>channelData := take (c + 1) (channelData ?ab) @ map (decoded_channel view nc n) [c + 1..<nc]\<rparr>)"
    using Suc.hyps(1) [OF m, of ?ab] Suc.prems(1) Suc.prems(3) lt pre by simp
  have tk: "take (c + 1) (channelData ?ab) = take c (channelData ab) @ [?d]"
    using lt Suc.prems(1) by (simp add: take_Suc_conv_app_nth)
  have "channel_loop view nc n c ab = channel_loop view nc n (c + 1) ?ab"
    using lt inner by (subst channel_loop.simps) simp
  then show ?case
    using ih tk lt by (simp add: upt_conv_Cons)
qed

lemma decodeAudioData_closed:
  assumes "0 < nc" and "0 < rate"
  shows "decodeAudioData data rate nc
         = Inr (let n = length data div (2 * nc)
                in if n = 0
                   then \<lparr>numberOfChannels = nc, buffer_length = 1, sampleRate = rate,
                         channelData = replicate nc [0]\<rparr>
                   else \<lparr>numberOfChannels = nc, buffer_length = n, sampleRate = rate,
                         channelData = map (decoded_channel data nc n) [0..<nc]\<rparr>)"
proof (cases "length data div (2 * nc) = 0")
  case True
  then show ?thesis
    unfolding decodeAudioData_def numSamples_div using assms by (simp add: createBuffer_def)
next
  case False
  let ?n = "length data div (2 * nc)"
  let ?ab = "\<lparr>numberOfChannels = nc, buffer_length = ?n, sampleRate = rate,
                channelData = replicate nc (replicate ?n 0)\<rparr>"
  have fits: "2 * (?n * nc) \<le> length data"
  proof -
    have "?n * (2 * nc) \<le> length data" by (rule div_times_less_eq_dividend)
    moreover have "2 * (?n * nc) = ?n * (2 * nc)" by simp
    ultimately show ?thesis by (simp only:)
  qed
  have "channel_loop data nc ?n 0 ?ab
        = Inr (?ab\<lparr>channelData := take 0 (channelData ?ab) @ map (decoded_channel data nc ?n) [0..<nc]\<rparr>)"
    by (rule channel_loop_closed [OF _ _ fits]) simp_all
  then show ?thesis
    unfolding decodeAudioData_def numSamples_div using False assms
    by (simp add: createBuffer_def Let_def)
qed

lemma length_uint8_view: "length (uint8_view ws) = 2 * length ws"
  by (induction ws) (simp_all add: uint8_view_def int16_bytes_def)

lemma uint8_view_nth:
  "k < length ws \<Longrightarrow>
     uint8_view ws ! (2 * k) = ucast (ws ! k) \<and> uint8_view ws ! (2 * k + 1) = ucast (drop_bit 8 (ws ! k))"
proof (induction ws arbitrary: k)
  case Nil
  then show ?case by simp
next
  case (Cons w ws)
  show ?case
  proof (cases k)
    case 0
    then show ?thesis by (simp add: uint8_view_def int16_bytes_def)
  next
    case (Suc j)
    then have "j < length ws" using Cons.prems by simp
    from Cons.IH [OF this] show ?thesis
      using Suc by (simp add: uint8_view_def int16_bytes_def)
  qed
qed

lemma int16_at_pcm16_bytes:
  assumes "k < length b"
  shows "int16_at (pcm16_bytes b) (2 * k) = real_of_int (sint (pcm_sample (b ! k))) / 32768"
proof -
  have "k < length (map pcm_sample b)" using assms by simp
  from uint8_view_nth [OF this] show ?thesis
    using assms by (simp add: int16_at_def pcm16_bytes_def word_cat_int16_bytes)
qed

lemma pcm_sample_error:
  assumes "- 1 \<le> s" and "s \<le> 1"
  shows "\<bar>real_of_int (sint (pcm_sample s)) / 32768 - s\<bar> \<le> 1 / 32768"
proof -
  define c where "c = max (- 32768) (min 32767 (s * 32768))"
  define v where "v = (if c < 0 then \<lceil>c\<rceil> else \<lfloor>c\<rfloor>)"
  have sv: "sint (pcm_sample s) = v"
    unfolding v_def c_def by (rule sint_pcm_sample [unfolded Let_def])
  have near: "\<bar>real_of_int v - c\<bar> < 1"
    unfolding v_def by (cases "c < 0") (simp_all, linarith+)
  have "\<bar>real_of_int v - s * 32768\<bar> \<le> 1"
  proof (cases "s * 32768 \<le> 32767")
    case True
    then have "c = s * 32768" using assms by (simp add: c_def)
    then show ?thesis using near by simp
  next
    case False
    then have cc: "c = 32767" by (simp add: c_def)
    then have "real_of_int v = 32767" by (simp add: v_def)
    then show ?thesis using False assms by simp
  qed
  then have "\<bar>(real_of_int v - s * 32768) / 32768\<bar> \<le> 1 / 32768"
    by (simp only: abs_divide) simp
  moreover have "(real_of_int v - s * 32768) / 32768 = real_of_int v / 32768 - s"
    by (simp add: field_simps)
  ultimately show ?thesis
    unfolding sv by (simp only:)
qed

lemma frame_offset_bound:
  fixes k n c nc :: nat
  assumes "k < n" and "c < nc"
  shows "2 * (k * nc + c) + 2 \<le> 2 * (n * nc)"
proof -
  have "k * nc + c < (k + 1) * nc" using assms(2) by simp
  also have "\<dots> \<le> n * nc" using assms(1) by (intro mult_le_mono1) simp
  finally show ?thesis by simp
qed

lemma decoded_channel_take:
  assumes "c < nc" and "2 * (n * nc) \<le> m"
  shows "decoded_channel (take m view) nc n c = decoded_channel view nc n c"
proof -
  have "int16_at (take m view) (2 * (k * nc + c)) = int16_at view (2 * (k * nc + c))"
    if "k < n" for k
    using frame_offset_bound [OF that assms(1), of ] assms(2) by (simp add: int16_at_def)
  then show ?thesis by (simp add: decoded_channel_def)
qed

lemma decodeAudioData_take:
  assumes "0 < nc" and "0 < rate"
  shows "decodeAudioData (take (length data - length data mod (2 * nc)) data) rate nc
         = decodeAudioData data rate nc"
proof -
  define n where "n = length data div (2 * nc)"
  define m where "m = length data - length data mod (2 * nc)"
  have m: "m = 2 * (n * nc)"
    unfolding m_def n_def by (simp add: minus_mod_eq_mult_div mult.commute mult.left_commute)
  have "m \<le> length data" by (simp add: m_def)
  then have len: "length (take m data) = m" by simp
  have "m div (2 * nc) = n"
    unfolding m using assms(1) by (simp add: mult.commute mult.left_commute)
  then have n': "length (take m data) div (2 * nc) = n"
    by (simp only: len)
  have chans: "map (decoded_channel (take m data) nc n) [0..<nc] = map (decoded_channel data nc n) [0..<nc]"
    by (rule map_cong [OF refl]) (simp add: decoded_channel_take m)
  show ?thesis
    unfolding m_def [symmetric] decodeAudioData_closed [OF assms] n' n_def [symmetric] Let_def
    by (simp only: chans)
qed

text \<open>
  C5. For every positive channel count the decoder returns a buffer and never an error,
  whatever the length of the byte buffer is, so also when it is not a multiple of
  \<open>2 * numChannels\<close>. It decodes \<open>floor (length / (2 * numChannels))\<close> complete frames,
  sample \<open>k\<close> of channel \<open>c\<close> being the little-endian 16-bit value at byte
  \<open>2 * (k * numChannels + c)\<close> divided by 32768 (with no complete frame it returns one
  silent frame), and the bytes of a trailing partial frame do not matter: cutting them off
  first gives the same result.
\<close>

theorem decodeAudioData_truncates:
  assumes "0 < numChannels" and "0 < rate"
  shows "decodeAudioData data rate numChannels
         = Inr (let numSamples = length data div (2 * numChannels)
                in if numSamples = 0
                   then \<lparr>numberOfChannels = numChannels, buffer_length = 1, sampleRate = rate,
                         channelData = replicate numChannels [0]\<rparr>
                   else \<lparr>numberOfChannels = numChannels, buffer_length = numSamples,
                         sampleRate = rate,
                         channelData = map (decoded_channel data numChannels numSamples)
                                         [0..<numChannels]\<rparr>)
       \<and> decodeAudioData (take (length data - length data mod (2 * numChannels)) data) rate numChannels
         = decodeAudioData data rate numChannels"
  using decodeAudioData_closed [OF assms, of data] decodeAudioData_take [OF assms, of data]
  by (simp only: simp_thms)

theorem decodeAudioData_truncates_witness:
  "(0::nat) < 2 \<and> (0::real) < 48000 \<and> length [0, 64, 0, 192, 1 :: byte] mod (2 * 2) \<noteq> 0
   \<and> decodeAudioData [0, 64, 0, 192, 1] 48000 2
       = Inr \<lparr>numberOfChannels = 2, buffer_length = 1, sampleRate = 48000,
              channelData = [[1 / 2], [- 1 / 2]]\<rparr>
   \<and> decodeAudioData [0, 64, 0, 192] 48000 2 = decodeAudioData [0, 64, 0, 192, 1] 48000 2"
  using decodeAudioData_truncates [of 2 48000 "[0, 64, 0, 192, 1]"]
  by (simp add: decoded_channel_def int16_at_def upt_conv_Cons word_cat_eq)

text \<open>
  C3 (as the code has it). For every non-empty buffer of samples in \<open>[-1, 1]\<close>, decoding
  the 16-bit PCM bytes of the encoder as one channel returns a buffer of the same length,
  each sample within \<open>1 / 32768\<close> of the original.
\<close>

theorem pcm16_round_trip:
  assumes "b \<noteq> []" and "\<forall>s \<in> set b. - 1 \<le> s \<and> s \<le> 1" and "0 < rate"
  shows "\<exists>decoded.
           decodeAudioData (pcm16_bytes b) rate 1
             = Inr \<lparr>numberOfChannels = 1, buffer_length = length b, sampleRate = rate,
                    channelData = [decoded]\<rparr>
         \<and> length decoded = length b
         \<and> (\<forall>i < length b. \<bar>decoded ! i - b ! i\<bar> \<le> 1 / 32768)"
proof -
  let ?decoded = "map (\<lambda>s. real_of_int (sint (pcm_sample s)) / 32768) b"
  have len: "length (pcm16_bytes b) = 2 * length b"
    by (simp add: pcm16_bytes_def length_uint8_view)
  have "decoded_channel (pcm16_bytes b) 1 (length b) 0 = ?decoded"
    by (rule nth_equalityI) (simp_all add: decoded_channel_def int16_at_pcm16_bytes)
  then have "decodeAudioData (pcm16_bytes b) rate 1
      = Inr \<lparr>numberOfChannels = 1, buffer_length = length b, sampleRate = rate,
             channelData = [?decoded]\<rparr>"
    using assms(1,3) by (simp add: decodeAudioData_closed len)
  moreover have "\<forall>i < length b. \<bar>?decoded ! i - b ! i\<bar> \<le> 1 / 32768"
  proof (intro allI impI)
    fix i
    assume i: "i < length b"
    then have "- 1 \<le> b ! i" and "b ! i \<le> 1"
      using assms(2) by simp_all
    from pcm_sample_error [OF this] show "\<bar>?decoded ! i - b ! i\<bar> \<le> 1 / 32768"
      using i by (simp only: nth_map)
  qed
  ultimately show ?thesis by (intro exI [of _ ?decoded]) simp
qed

theorem pcm16_round_trip_witness:
  "[1, - 1 / 2, 3 / 131072 :: real] \<noteq> []
   \<and> list_all (\<lambda>s. - 1 \<le> s \<and> s \<le> 1) [1, - 1 / 2, 3 / 131072 :: real]
   \<and> (0 :: real) < 16000
   \<and> (\<exists>decoded.
           decodeAudioData (pcm16_bytes [1, - 1 / 2, 3 / 131072]) 16000 1
             = Inr \<lparr>numberOfChannels = 1, buffer_length = 3, sampleRate = 16000,
                    channelData = [decoded]\<rparr>
         \<and> length decoded = 3
         \<and> \<bar>decoded ! 0 - 1\<bar> \<le> 1 / 32768
         \<and> \<bar>decoded ! 1 - (- 1 / 2)\<bar> \<le> 1 / 32768
         \<and> \<bar>decoded ! 2 - 3 / 131072\<bar> \<le> 1 / 32768)"
proof -
  have ne: "[1, - 1 / 2, 3 / 131072 :: real] \<noteq> []" by simp
  have range: "\<forall>s \<in> set [1, - 1 / 2, 3 / 131072 :: real]. - 1 \<le> s \<and> s \<le> 1" by simp
  have rate: "(0 :: real) < 16000" by simp
  from pcm16_round_trip [OF ne range rate] obtain decoded where d:
    "decodeAudioData (pcm16_bytes [1, - 1 / 2, 3 / 131072]) 16000 1
       = Inr \<lparr>numberOfChannels = 1, buffer_length = length [1, - 1 / 2, 3 / 131072 :: real],
              sampleRate = 16000, channelData = [decoded]\<rparr>"
    "length decoded = length [1, - 1 / 2, 3 / 131072 :: real]"
    "\<forall>i < length [1, - 1 / 2, 3 / 131072 :: real].
       \<bar>decoded ! i - [1, - 1 / 2, 3 / 131072] ! i\<bar> \<le> 1 / 32768"
    by blast
  have near: "\<bar>decoded ! 0 - 1\<bar> \<le> 1 / 32768 \<and> \<bar>decoded ! 1 - (- 1 / 2)\<bar> \<le> 1 / 32768
      \<and> \<bar>decoded ! 2 - 3 / 131072\<bar> \<le> 1 / 32768"
    using d(3) [THEN spec, of 0] d(3) [THEN spec, of 1] d(3) [THEN spec, of 2] by simp
  show ?thesis
    using ne rate d(1,2) near by (intro conjI exI [of _ decoded]) simp_all
qed

text \<open>
  C3 (as stated) fails for the empty buffer: it encodes to no bytes, and the decoder
  returns one silent sample where the original has none.
\<close>

theorem pcm16_round_trip_empty:
  "decodeAudioData (pcm16_bytes []) 16000 1
     = Inr \<lparr>numberOfChannels = 1, buffer_length = 1, sampleRate = 16000, channelData = [[0]]\<rparr>
   \<and> length [0 :: real] \<noteq> length ([] :: real list)"
  by (simp add: decodeAudioData_closed pcm16_bytes_def uint8_view_def)

section \<open>Facts about the peak envelope\<close>

lemma window_peak_empty: "window_peak m j j mx = mx"
  by (simp add: window_peak.simps)

lemma waveform_loop_step0: "waveform_loop m n 0 i (replicate n 0) = replicate n 0"
proof (induction "n - i" arbitrary: i)
  case 0
  then show ?case by (simp add: waveform_loop.simps)
next
  case (Suc k)
  then have "i < n" and "k = n - (i + 1)" by simp_all
  moreover have "(replicate n (0::real))[i := 0] = replicate n 0"
    using \<open>i < n\<close> by (simp add: list_update_same_conv)
  ultimately show ?case
    using Suc.hyps(1) [of "i + 1"]
    by (subst waveform_loop.simps) (simp add: window_peak_empty)
qed

text \<open>
  C10. A mono signal shorter than 1024 samples has window size
  \<open>Math.floor(length / 1024) = 0\<close>; every window is empty and all 1024 values of the
  envelope are 0, whatever the samples are.
\<close>

theorem waveformData_short_signal:
  "length monoChannel < 1024 \<Longrightarrow> waveformData monoChannel = replicate 1024 0"
  by (simp add: waveformData_def waveform_loop_step0)

theorem waveformData_short_signal_witness:
  "length [1, - 1 / 2 :: real] < 1024 \<and> waveformData [1, - 1 / 2] = replicate 1024 0"
  using waveformData_short_signal [of "[1, - 1 / 2]"] by simp

section \<open>Facts about the bit-crusher\<close>

lemma quantize_near:
  assumes "0 < step"
  shows "\<bar>quantize step x - x\<bar> \<le> step / 2"
proof -
  define q where "q = x / step + 1 / 2"
  have "real_of_int \<lfloor>q\<rfloor> \<le> q" and "q < real_of_int \<lfloor>q\<rfloor> + 1"
    by linarith+
  then have "\<bar>real_of_int \<lfloor>q\<rfloor> - x / step\<bar> \<le> 1 / 2"
    unfolding q_def by linarith
  then have "step * \<bar>real_of_int \<lfloor>q\<rfloor> - x / step\<bar> \<le> step * (1 / 2)"
    using assms by (intro mult_left_mono) simp_all
  moreover have "step * \<bar>real_of_int \<lfloor>q\<rfloor> - x / step\<bar> = \<bar>step * real_of_int \<lfloor>q\<rfloor> - x\<bar>"
  proof -
    have "step * \<bar>real_of_int \<lfloor>q\<rfloor> - x / step\<bar> = \<bar>step * (real_of_int \<lfloor>q\<rfloor> - x / step)\<bar>"
      using assms by (simp add: abs_mult)
    also have "step * (real_of_int \<lfloor>q\<rfloor> - x / step) = step * real_of_int \<lfloor>q\<rfloor> - x"
      using assms by (simp add: right_diff_distrib)
    finally show ?thesis .
  qed
  ultimately show ?thesis
    by (simp add: quantize_def q_def)
qed

lemma bitCrusher_loop_every_sample:
  assumes "length outputL = len" and "length outputR = len" and "i \<le> len"
  shows "bitCrusher_loop step 1 inputL inputR len i held outputL outputR
         = (if i < len then (inputL ! (len - 1), inputR ! (len - 1)) else held,
            take i outputL @ map (\<lambda>k. quantize step (inputL ! k)) [i..<len],
            take i outputR @ map (\<lambda>k. quantize step (inputR ! k)) [i..<len])"
  using assms
proof (induction "len - i" arbitrary: i held outputL outputR)
  case 0
  then show ?case by (simp add: bitCrusher_loop.simps)
next
  case (Suc m)
  then have lt: "i < len" and m: "m = len - (i + 1)" by simp_all
  let ?oL = "outputL[i := quantize step (inputL ! i)]"
  let ?oR = "outputR[i := quantize step (inputR ! i)]"
  have unfold: "bitCrusher_loop step 1 inputL inputR len i held outputL outputR
        = bitCrusher_loop step 1 inputL inputR len (i + 1) (inputL ! i, inputR ! i) ?oL ?oR"
    using lt by (subst bitCrusher_loop.simps) (simp add: rem_is_zero_def)
  have ih: "bitCrusher_loop step 1 inputL inputR len (i + 1) (inputL ! i, inputR ! i) ?oL ?oR
        = (if i + 1 < len then (inputL ! (len - 1), inputR ! (len - 1)) else (inputL ! i, inputR ! i),
           take (i + 1) ?oL @ map (\<lambda>k. quantize step (inputL ! k)) [i + 1..<len],
           take (i + 1) ?oR @ map (\<lambda>k. quantize step (inputR ! k)) [i + 1..<len])"
    using Suc.hyps(1) [OF m, of ?oL ?oR] Suc.prems lt by simp
  have tL: "take (i + 1) ?oL = take i outputL @ [quantize step (inputL ! i)]"
    using lt Suc.prems(1) by (simp add: take_Suc_conv_app_nth)
  have tR: "take (i + 1) ?oR = take i outputR @ [quantize step (inputR ! i)]"
    using lt Suc.prems(2) by (simp add: take_Suc_conv_app_nth)
  have last: "\<not> i + 1 < len \<Longrightarrow> i = len - 1"
    using lt by simp
  show ?case
    unfolding unfold ih tL tR using lt last by (auto simp: upt_conv_Cons)
qed

text \<open>
  C9. With \<open>bitDepth = 16\<close> and \<open>sampleRateReduction = 1\<close> the hold length is 1, every
  sample is taken over, and each output sample of both channels differs from its input
  sample by at most half the quantization step \<open>0.5^16\<close>, so by less than the step.
\<close>

theorem bitCrusherProcess_near_identity:
  assumes "well_formed_buffer inputBuffer" and "well_formed_buffer outputBuffer"
    and "numberOfChannels inputBuffer = 2" and "numberOfChannels outputBuffer = 2"
    and "buffer_length outputBuffer = buffer_length inputBuffer"
    and "bitDepth fx = 16" and "sampleRateReduction fx = 1"
  shows "\<exists>held' out.
           bitCrusherProcess fx held inputBuffer outputBuffer = Inr (held', out)
         \<and> length (channelData out) = 2
         \<and> (\<forall>c < 2. length (channelData out ! c) = buffer_length inputBuffer
              \<and> (\<forall>i < buffer_length inputBuffer.
                    \<bar>channelData out ! c ! i - channelData inputBuffer ! c ! i\<bar> \<le> (1 / 2) ^ 16 / 2))"
proof -
  let ?n = "buffer_length inputBuffer"
  let ?step = "(1 / 2) ^ 16 :: real"
  obtain inL inR where inp: "channelData inputBuffer = [inL, inR]"
    using assms(1,3) by (auto simp: well_formed_buffer_def length_Suc_conv numeral_2_eq_2)
  obtain oL oR where outp: "channelData outputBuffer = [oL, oR]"
    using assms(2,4) by (auto simp: well_formed_buffer_def length_Suc_conv numeral_2_eq_2)
  have lens: "length oL = ?n" "length oR = ?n"
    using assms(2,5) by (simp_all add: well_formed_buffer_def outp)
  have step_pos: "0 < ?step" by simp
  let ?qL = "map (\<lambda>k. quantize ?step (inL ! k)) [0..<?n]"
  let ?qR = "map (\<lambda>k. quantize ?step (inR ! k)) [0..<?n]"
  let ?held = "if 0 < ?n then (inL ! (?n - 1), inR ! (?n - 1)) else held"
  let ?out = "outputBuffer\<lparr>channelData := [?qL, ?qR]\<rparr>"
  have loop: "bitCrusher_loop ?step 1 inL inR ?n 0 held oL oR = (?held, ?qL, ?qR)"
    using bitCrusher_loop_every_sample [OF lens, of 0 ?step inL inR held] by simp
  have run: "bitCrusherProcess fx held inputBuffer outputBuffer = Inr (?held, ?out)"
    using loop assms(6,7) by (simp add: bitCrusherProcess_def inp outp Math_round_def)
  have near: "\<bar>channelData ?out ! c ! i - channelData inputBuffer ! c ! i\<bar> \<le> ?step / 2"
    if "c < 2" and "i < ?n" for c i
  proof -
    from that(1) consider "c = 0" | "c = 1" by linarith
    then show ?thesis
    proof cases
      case 1
      then show ?thesis
        using that(2) quantize_near [OF step_pos, of "inL ! i"] by (simp add: inp)
    next
      case 2
      then show ?thesis
        using that(2) quantize_near [OF step_pos, of "inR ! i"] by (simp add: inp)
    qed
  qed
  have lenc: "length (channelData ?out ! c) = ?n" if "c < 2" for c
  proof -
    from that consider "c = 0" | "c = 1" by linarith
    then show ?thesis by cases simp_all
  qed
  show ?thesis
  proof (intro exI conjI allI impI)
    show "bitCrusherProcess fx held inputBuffer outputBuffer = Inr (?held, ?out)"
      by (rule run)
  next
    show "length (channelData ?out) = 2" by simp
  next
    fix c :: nat
    assume "c < 2"
    then show "length (channelData ?out ! c) = ?n" by (rule lenc)
  next
    fix c i :: nat
    assume "c < 2" and "i < ?n"
    then show "\<bar>channelData ?out ! c ! i - channelData inputBuffer ! c ! i\<bar> \<le> ?step / 2"
      by (rule near)
  qed
qed

theorem bitCrusherProcess_near_identity_witness:
  "(let inB = \<lparr>numberOfChannels = 2, buffer_length = 2, sampleRate = 48000,
                channelData = [[1 / 3, - 1 / 5], [0, 1]]\<rparr>;
        outB = \<lparr>numberOfChannels = 2, buffer_length = 2, sampleRate = 48000,
                 channelData = [[0, 0], [0, 0]]\<rparr>;
        fx = fx_initial\<lparr>bitDepth := 16, sampleRateReduction := 1\<rparr>
    in well_formed_buffer inB \<and> well_formed_buffer outB
       \<and> numberOfChannels inB = 2 \<and> numberOfChannels outB = 2
       \<and> buffer_length outB = buffer_length inB
       \<and> bitDepth fx = 16 \<and> sampleRateReduction fx = 1
       \<and> (\<exists>held' out.
             bitCrusherProcess fx (0, 0) inB outB = Inr (held', out)
           \<and> length (channelData out) = 2
           \<and> (\<forall>c < 2. length (channelData out ! c) = buffer_length inB
                \<and> (\<forall>i < buffer_length inB.
                      \<bar>channelData out ! c ! i - channelData inB ! c ! i\<bar> \<le> (1 / 2) ^ 16 / 2))))"
  using bitCrusherProcess_near_identity
    [of "\<lparr>numberOfChannels = 2, buffer_length = 2, sampleRate = 48000,
           channelData = [[1 / 3, - 1 / 5], [0, 1]]\<rparr>"
        "\<lparr>numberOfChannels = 2, buffer_length = 2, sampleRate = 48000,
           channelData = [[0, 0], [0, 0]]\<rparr>"
        "fx_initial\<lparr>bitDepth := 16, sampleRateReduction := 1\<rparr>" "(0, 0)"]
  by (simp add: well_formed_buffer_def Let_def)

section \<open>Facts about the delay feedback\<close>

lemma feedback_targets_append [simp]:
  "feedback_targets (xs @ ys) = feedback_targets xs @ feedback_targets ys"
  by (simp add: feedback_targets_def)

lemma feedback_targets_Nil [simp]: "feedback_targets [] = []"
  by (simp add: feedback_targets_def)

lemma feedback_targets_updateFxChain [simp]:
  "feedback_targets (updateFxChain fx time) = [delayFeedback fx]"
  by (simp add: feedback_targets_def updateFxChain_def Let_def)

lemma fb_ok_same_state: "fx_inv fx \<Longrightarrow> fb_ok (fx, [])"
  by (simp add: fb_ok_def)

lemma handleControlChange_fb:
  assumes "fx_inv fx" and "label = ''Delay Fbk'' \<longrightarrow> val < 1"
  shows "fb_ok (handleControlChange fx time val label)"
  using assms by (simp add: fb_ok_def fx_inv_def handleControlChange_def Let_def)

lemma handleFxToggle_fb:
  assumes "fx_inv fx"
  shows "fb_ok (handleFxToggle fx time effect)"
  using assms by (simp add: fb_ok_def fx_inv_def handleFxToggle_def Let_def)

lemma updateKaossFx_fb:
  assumes "fx_inv fx"
  shows "fb_ok (updateKaossFx fx time)"
proof -
  have "(1 - snd (kaossXY fx)) * (85 / 100) \<le> 1 * (85 / 100)"
    using assms by (intro mult_right_mono) (simp_all add: fx_inv_def)
  then have "(1 - snd (kaossXY fx)) * (85 / 100) < 1" by simp
  then show ?thesis
    using assms by (simp add: fb_ok_def fx_inv_def updateKaossFx_def Let_def)
qed

lemma updateKaossPosition_fb:
  assumes "fx_inv fx"
  shows "fb_ok (updateKaossPosition fx time rx ry)"
  unfolding updateKaossPosition_def Let_def
  by (rule updateKaossFx_fb) (use assms in \<open>simp add: fx_inv_def\<close>)

lemma resetFxToNeutral_fb:
  assumes "fx_inv fx"
  shows "fb_ok (resetFxToNeutral fx time)"
  using assms by (simp add: fb_ok_def fx_inv_def resetFxToNeutral_def Let_def)

lemma handleKaossProgramChange_fb:
  assumes "fx_inv fx"
  shows "fb_ok (handleKaossProgramChange fx time program)"
proof -
  have inv: "fx_inv (fx\<lparr>activeKaossProgram := program\<rparr>)"
    using assms by (simp add: fx_inv_def)
  show ?thesis
    unfolding handleKaossProgramChange_def Let_def
    using updateKaossFx_fb [OF inv] fb_ok_same_state [OF inv] by simp
qed

lemma handleKaossPointerDown_fb:
  assumes "fx_inv fx"
  shows "fb_ok (handleKaossPointerDown fx time doubleTap rx ry)"
proof -
  let ?fx1 = "fx\<lparr>isKaossActive := True\<rparr>"
  let ?fx2 = "if doubleTap then ?fx1\<lparr>isKaossHeld := \<not> isKaossHeld ?fx1\<rparr> else ?fx1"
  have inv: "fx_inv ?fx2"
    using assms by (simp add: fx_inv_def)
  have eq: "handleKaossPointerDown fx time doubleTap rx ry
      = (case updateKaossPosition ?fx2 time rx ry of
           (fx3, ramps') \<Rightarrow> (fx3, updateFxChain ?fx2 time @ ramps'))"
    by (simp only: handleKaossPointerDown_def Let_def)
  obtain fx3 ramps where pos: "updateKaossPosition ?fx2 time rx ry = (fx3, ramps)"
    by (cases "updateKaossPosition ?fx2 time rx ry")
  have ok: "fb_ok (fx3, ramps)"
    using updateKaossPosition_fb [OF inv, of time rx ry] by (simp only: pos)
  show ?thesis
    unfolding eq pos using ok inv by (simp add: fb_ok_def fx_inv_def)
qed

lemma handleKaossPointerMove_fb:
  assumes "fx_inv fx"
  shows "fb_ok (handleKaossPointerMove fx time rx ry)"
  unfolding handleKaossPointerMove_def
  using updateKaossPosition_fb [OF assms] fb_ok_same_state [OF assms] by simp

lemma handleKaossPointerUp_fb:
  assumes "fx_inv fx"
  shows "fb_ok (handleKaossPointerUp fx time)"
  using assms
  by (simp add: fb_ok_def fx_inv_def handleKaossPointerUp_def feedback_targets_def)

lemma kaossReleaseTimeout_fb:
  assumes "fx_inv fx"
  shows "fb_ok (kaossReleaseTimeout fx time)"
  unfolding kaossReleaseTimeout_def
  using resetFxToNeutral_fb [OF assms] fb_ok_same_state [OF assms] by simp

lemma fx_step_fb:
  assumes "fx_inv fx" and "feedback_input_below_one ev"
  shows "fb_ok (fx_step fx time ev)"
proof (cases ev)
  case (ControlChange val label)
  then show ?thesis
    using assms handleControlChange_fb [OF assms(1), of label val time]
    by (simp split: if_splits)
next
  case KaossHoldButton
  then show ?thesis
    using assms(1) by (simp add: fb_ok_def fx_inv_def)
qed (simp_all add: assms(1) handleFxToggle_fb handleKaossPointerDown_fb
      handleKaossPointerMove_fb handleKaossPointerUp_fb kaossReleaseTimeout_fb
      handleKaossProgramChange_fb)

lemma fx_run_fb:
  assumes "fx_inv fx" and "list_all (\<lambda>e. feedback_input_below_one (snd e)) evs"
  shows "fb_ok (fx_run fx evs)"
  using assms
proof (induction evs arbitrary: fx)
  case Nil
  then show ?case by (simp add: fb_ok_def)
next
  case (Cons e evs)
  obtain time ev where e: "e = (time, ev)" by (cases e)
  obtain fx' ramps where st: "fx_step fx time ev = (fx', ramps)"
    by (cases "fx_step fx time ev")
  obtain fx'' ramps' where rn: "fx_run fx' evs = (fx'', ramps')"
    by (cases "fx_run fx' evs")
  have one: "fb_ok (fx', ramps)"
    using fx_step_fb [of fx ev time] Cons.prems by (simp add: e st)
  then have "fb_ok (fx_run fx' evs)"
    using Cons.IH [of fx'] Cons.prems(2) by (simp add: fb_ok_def)
  then show ?case
    using one by (simp add: e st rn fb_ok_def)
qed

lemma fx_initial_inv: "fx_inv fx_initial"
  by (simp add: fx_inv_def fx_initial_def)

text \<open>
  C8 (as the code has it). The feedback starts at 0.3; the Kaoss program
  \<open>LPF Sweep Delay\<close> sets it to \<open>(1 - y) * 0.85\<close> for the clamped pad coordinate \<open>y\<close>,
  which is at most 0.85; the control change \<open>Delay Fbk\<close> stores its value as it comes.
  So, over every run of events in which each \<open>Delay Fbk\<close> control change carries a value
  below 1, the stored feedback stays below 1 and so does every value that
  \<open>updateFxChain\<close> ramps the feedback gain to.
\<close>

theorem delay_feedback_below_one:
  assumes "list_all (\<lambda>e. feedback_input_below_one (snd e)) evs"
  shows "delayFeedback (fst (fx_trace start_time evs)) < 1
       \<and> list_all (\<lambda>v. v < 1) (feedback_targets (snd (fx_trace start_time evs)))"
proof -
  obtain fx ramps where rn: "fx_run fx_initial evs = (fx, ramps)"
    by (cases "fx_run fx_initial evs")
  have "fb_ok (fx, ramps)"
    using fx_run_fb [OF fx_initial_inv assms] by (simp only: rn)
  then show ?thesis
    using fx_initial_inv by (simp add: fx_trace_def rn fb_ok_def fx_inv_def)
qed

theorem delay_feedback_below_one_witness:
  "list_all (\<lambda>e. feedback_input_below_one (snd e))
     [(1, KaossPointerDown False (1 / 4) (- 3)), (2, ControlChange (9 / 10) ''Delay Fbk'')]
   \<and> delayFeedback (fst (fx_trace 0
        [(1, KaossPointerDown False (1 / 4) (- 3)), (2, ControlChange (9 / 10) ''Delay Fbk'')])) = 9 / 10
   \<and> feedback_targets (snd (fx_trace 0
        [(1, KaossPointerDown False (1 / 4) (- 3)), (2, ControlChange (9 / 10) ''Delay Fbk'')]))
      = [3 / 10, 3 / 10, 85 / 100, 9 / 10]
   \<and> list_all (\<lambda>v. v < 1) (feedback_targets (snd (fx_trace 0
        [(1, KaossPointerDown False (1 / 4) (- 3)), (2, ControlChange (9 / 10) ''Delay Fbk'')])))"
  using delay_feedback_below_one
    [of "[(1, KaossPointerDown False (1 / 4) (- 3)), (2, ControlChange (9 / 10) ''Delay Fbk'')]" 0]
  by (simp add: fx_trace_def fx_initial_def handleKaossPointerDown_def updateKaossPosition_def
      updateKaossFx_def handleControlChange_def Let_def)

text \<open>
  C8 (as stated) fails: the control change \<open>Delay Fbk\<close> does not clamp. A change to 1.5
  on the initial parameters stores 1.5, and \<open>updateFxChain\<close> ramps the feedback gain
  to 1.5.
\<close>

theorem delay_feedback_not_clamped:
  "delayFeedback (fst (fx_trace 0 [(1, ControlChange (3 / 2) ''Delay Fbk'')])) = 3 / 2
   \<and> feedback_targets (snd (fx_trace 0 [(1, ControlChange (3 / 2) ''Delay Fbk'')])) = [3 / 10, 3 / 2]
   \<and> \<not> (3 / 2 :: real) < 1"
  by (simp add: fx_trace_def fx_initial_def handleControlChange_def Let_def)

section \<open>Facts about the scheduler\<close>

lemma decode_stereo:
  "\<exists>buf. decodeAudioData data 48000 2 = Inr buf \<and> 0 < duration buf"
proof -
  have "decodeAudioData data 48000 2
        = Inr (let n = length data div (2 * 2)
                in if n = 0
                   then \<lparr>numberOfChannels = 2, buffer_length = 1, sampleRate = 48000,
                         channelData = replicate 2 [0]\<rparr>
                   else \<lparr>numberOfChannels = 2, buffer_length = n, sampleRate = 48000,
                         channelData = map (decoded_channel data 2 n) [0..<2]\<rparr>)"
    by (rule decodeAudioData_closed) simp_all
  then show ?thesis
    by (auto simp: Let_def duration_def)
qed

lemma scheduled_append:
  "scheduled (st\<lparr>sources := sources st @ [s]\<rparr>)
     = scheduled st @ (case src_start s of None \<Rightarrow> [] | Some t \<Rightarrow> [(t, duration (src_buffer s))])"
  by (cases "src_start s") (simp_all add: scheduled_def List.map_filter_def)

lemma on_audio_chunk_valid:
  assumes "playbackState st \<noteq> Paused" and "playbackState st \<noteq> Stopped"
    and "nextStartTime st \<noteq> 0" and "\<not> nextStartTime st < currentTime" and "0 \<le> currentTime"
    and "decodeAudioData data 48000 2 = Inr buf"
  shows "on_audio_chunk st currentTime data
         = Inr (st\<lparr>sources := sources st
                        @ [\<lparr>src_buffer = buf, src_sink = outputNode st,
                            src_start = Some (nextStartTime st)\<rparr>],
                    nextStartTime := nextStartTime st + duration buf\<rparr>)"
  using assms by (simp add: on_audio_chunk_def Let_def start_last_source_def)

lemma on_audio_chunk_sentinel:
  assumes "playbackState st \<noteq> Paused" and "playbackState st \<noteq> Stopped"
    and "nextStartTime st = 0" and "0 \<le> currentTime"
    and "decodeAudioData data 48000 2 = Inr buf"
  shows "on_audio_chunk st currentTime data
         = Inr (st\<lparr>sources := sources st
                        @ [\<lparr>src_buffer = buf, src_sink = outputNode st,
                            src_start = Some (currentTime + 2)\<rparr>],
                    timeouts := timeouts st @ [(2000, SetPlaybackStatePlaying)],
                    nextStartTime := currentTime + 2 + duration buf\<rparr>)"
  using assms by (simp add: on_audio_chunk_def Let_def start_last_source_def bufferTime_def)

lemma on_audio_chunk_underrun:
  assumes "playbackState st \<noteq> Paused" and "playbackState st \<noteq> Stopped"
    and "nextStartTime st \<noteq> 0" and "nextStartTime st < currentTime"
    and "decodeAudioData data 48000 2 = Inr buf"
  shows "on_audio_chunk st currentTime data
         = Inr (st\<lparr>sources := sources st
                        @ [\<lparr>src_buffer = buf, src_sink = outputNode st, src_start = None\<rparr>],
                    playbackState := Loading, nextStartTime := 0\<rparr>)"
  using assms by (simp add: on_audio_chunk_def Let_def)

lemma gapless_from_nth:
  assumes "gapless_from t segs" and "Suc k < length segs"
  shows "fst (segs ! Suc k) = fst (segs ! k) + snd (segs ! k)"
  using assms
proof (induction segs arbitrary: t k)
  case Nil
  then show ?case by simp
next
  case (Cons seg rest)
  show ?case
  proof (cases k)
    case 0
    then obtain seg' rest' where r: "rest = seg' # rest'"
      using Cons.prems(2) by (cases rest) simp_all
    then show ?thesis
      using Cons.prems(1) 0 by simp
  next
    case (Suc j)
    then show ?thesis
      using Cons.IH [of "t + snd seg" j] Cons.prems by simp
  qed
qed

lemma gapless_from_first:
  assumes "gapless_from t segs" and "segs \<noteq> []"
  shows "fst (segs ! 0) = t"
  using assms by (cases segs) simp_all

lemma chunk_run_gapless:
  assumes "playbackState st \<noteq> Paused" and "playbackState st \<noteq> Stopped"
    and "clock_valid_run st chunks"
  shows "\<exists>st' new bufs.
           chunk_run st chunks = Inr st'
         \<and> map (\<lambda>c. decodeAudioData (snd c) 48000 2) chunks = map Inr bufs
         \<and> scheduled st' = scheduled st @ new
         \<and> map snd new = map duration bufs
         \<and> gapless_from (nextStartTime st) new"
  using assms
proof (induction chunks arbitrary: st)
  case Nil
  show ?case
    by (intro exI [of _ st] exI [of _ "[]"]) simp
next
  case (Cons c chunks)
  obtain currentTime data where c: "c = (currentTime, data)" by (cases c)
  obtain buf where buf: "decodeAudioData data 48000 2 = Inr buf"
    using decode_stereo [of data] by blast
  let ?src = "\<lparr>src_buffer = buf, src_sink = outputNode st, src_start = Some (nextStartTime st)\<rparr>"
  let ?st1 = "st\<lparr>sources := sources st @ [?src],
                  nextStartTime := nextStartTime st + duration buf\<rparr>"
  have valid: "0 \<le> currentTime" "nextStartTime st \<noteq> 0" "\<not> nextStartTime st < currentTime"
    using Cons.prems(3) by (simp_all add: c)
  have step: "on_audio_chunk st currentTime data = Inr ?st1"
    by (rule on_audio_chunk_valid [OF Cons.prems(1,2) valid(2,3,1) buf])
  have rest: "clock_valid_run ?st1 chunks"
    using Cons.prems(3) by (simp add: c step)
  have "playbackState ?st1 \<noteq> Paused" and "playbackState ?st1 \<noteq> Stopped"
    using Cons.prems(1,2) by simp_all
  from Cons.IH [OF this rest] obtain st' new bufs where ih:
    "chunk_run ?st1 chunks = Inr st'"
    "map (\<lambda>c. decodeAudioData (snd c) 48000 2) chunks = map Inr bufs"
    "scheduled st' = scheduled ?st1 @ new"
    "map snd new = map duration bufs"
    "gapless_from (nextStartTime ?st1) new"
    by blast
  have sch: "scheduled ?st1 = scheduled st @ [(nextStartTime st, duration buf)]"
    using scheduled_append [of st ?src] by (simp add: scheduled_def)
  show ?case
  proof (intro exI conjI)
    show "chunk_run st (c # chunks) = Inr st'"
      by (simp add: c step ih(1))
    show "map (\<lambda>c. decodeAudioData (snd c) 48000 2) (c # chunks) = map Inr (buf # bufs)"
      by (simp add: c buf ih(2))
    show "scheduled st' = scheduled st @ ((nextStartTime st, duration buf) # new)"
      by (simp add: ih(3) sch)
    show "map snd ((nextStartTime st, duration buf) # new) = map duration (buf # bufs)"
      by (simp add: ih(4))
    show "gapless_from (nextStartTime st) ((nextStartTime st, duration buf) # new)"
      using ih(5) by simp
  qed
qed

text \<open>
  C1. Over any run of deliveries in which the handler finds the clock valid each time
  (not the sentinel 0, not behind the device clock), the handler raises no exception,
  every chunk is decoded and scheduled, the first segment starts at the clock value the
  run began with, and every later segment starts exactly at the start of the segment
  before it plus that segment's duration.
\<close>

theorem gapless_scheduling:
  assumes "player_inv st" and "clock_valid_run st chunks"
  shows "\<exists>st' new bufs.
           chunk_run st chunks = Inr st'
         \<and> map (\<lambda>c. decodeAudioData (snd c) 48000 2) chunks = map Inr bufs
         \<and> scheduled st' = scheduled st @ new
         \<and> map snd new = map duration bufs
         \<and> (if new = [] then True else fst (new ! 0) = nextStartTime st)
         \<and> (\<forall>k. Suc k < length new \<longrightarrow> fst (new ! Suc k) = fst (new ! k) + snd (new ! k))"
proof (cases chunks)
  case Nil
  show ?thesis
    by (intro exI [of _ st] exI [of _ "[]"]) (simp add: Nil)
next
  case (Cons c rest)
  then have "nextStartTime st \<noteq> 0"
    using assms(2) by (cases c) simp
  then have "playbackState st \<noteq> Paused" and "playbackState st \<noteq> Stopped"
    using assms(1) by (auto simp: player_inv_def split: if_splits)
  from chunk_run_gapless [OF this assms(2)] obtain st' new bufs where r:
    "chunk_run st chunks = Inr st'"
    "map (\<lambda>c. decodeAudioData (snd c) 48000 2) chunks = map Inr bufs"
    "scheduled st' = scheduled st @ new"
    "map snd new = map duration bufs"
    "gapless_from (nextStartTime st) new"
    by blast
  show ?thesis
  proof (intro exI conjI allI impI)
    show "chunk_run st chunks = Inr st'" by (rule r(1))
    show "map (\<lambda>c. decodeAudioData (snd c) 48000 2) chunks = map Inr bufs" by (rule r(2))
    show "scheduled st' = scheduled st @ new" by (rule r(3))
    show "map snd new = map duration bufs" by (rule r(4))
    show "if new = [] then True else fst (new ! 0) = nextStartTime st"
      using gapless_from_first [OF r(5)] by simp
  next
    fix k
    assume "Suc k < length new"
    then show "fst (new ! Suc k) = fst (new ! k) + snd (new ! k)"
      by (rule gapless_from_nth [OF r(5)])
  qed
qed

theorem gapless_scheduling_witness:
  "player_inv (player_initial\<lparr>playbackState := Playing, nextStartTime := 5\<rparr>)
   \<and> clock_valid_run (player_initial\<lparr>playbackState := Playing, nextStartTime := 5\<rparr>) [(4 :: real, [0, 64, 0, 192]), (9 / 2, [0, 64, 0, 192, 1, 2, 3, 4])]
   \<and> (\<exists>st' new bufs.
           chunk_run (player_initial\<lparr>playbackState := Playing, nextStartTime := 5\<rparr>) [(4 :: real, [0, 64, 0, 192]), (9 / 2, [0, 64, 0, 192, 1, 2, 3, 4])] = Inr st'
         \<and> map (\<lambda>c. decodeAudioData (snd c) 48000 2) [(4 :: real, [0, 64, 0, 192]), (9 / 2, [0, 64, 0, 192, 1, 2, 3, 4])] = map Inr bufs
         \<and> scheduled st' = scheduled (player_initial\<lparr>playbackState := Playing, nextStartTime := 5\<rparr>) @ new
         \<and> map snd new = map duration bufs
         \<and> (if new = [] then True else fst (new ! 0) = nextStartTime (player_initial\<lparr>playbackState := Playing, nextStartTime := 5\<rparr>))
         \<and> (\<forall>k. Suc k < length new \<longrightarrow> fst (new ! Suc k) = fst (new ! k) + snd (new ! k)))"
proof -
  have inv: "player_inv (player_initial\<lparr>playbackState := Playing, nextStartTime := 5\<rparr>)"
    by (simp add: player_inv_def)
  have valid: "clock_valid_run (player_initial\<lparr>playbackState := Playing, nextStartTime := 5\<rparr>) [(4 :: real, [0, 64, 0, 192]), (9 / 2, [0, 64, 0, 192, 1, 2, 3, 4])]"
    by (simp add: on_audio_chunk_def decodeAudioData_closed Let_def start_last_source_def
        duration_def)
  from gapless_scheduling [OF inv valid] show ?thesis
    using inv valid by (intro conjI)
qed

text \<open>
  C2. When the clock is not the sentinel and is behind the device clock, the handler
  returns normally: it sets the playback state to loading and the clock to the sentinel
  0, it makes a source for the segment but never starts it, so nothing is added to the
  schedule, and it sets no timeout.
\<close>

theorem underrun_drops_segment:
  assumes "player_inv st" and "nextStartTime st \<noteq> 0" and "nextStartTime st < currentTime"
  shows "\<exists>buf st'.
           on_audio_chunk st currentTime data = Inr st'
         \<and> st' = st\<lparr>sources := sources st
                           @ [\<lparr>src_buffer = buf, src_sink = outputNode st, src_start = None\<rparr>],
                       playbackState := Loading, nextStartTime := 0\<rparr>
         \<and> playbackState st' = Loading \<and> nextStartTime st' = 0
         \<and> scheduled st' = scheduled st \<and> timeouts st' = timeouts st"
proof -
  have np: "playbackState st \<noteq> Paused" and ns: "playbackState st \<noteq> Stopped"
    using assms(1,2) by (auto simp: player_inv_def split: if_splits)
  obtain buf where buf: "decodeAudioData data 48000 2 = Inr buf"
    using decode_stereo [of data] by blast
  let ?src = "\<lparr>src_buffer = buf, src_sink = outputNode st, src_start = None\<rparr>"
  let ?st' = "st\<lparr>sources := sources st @ [?src], playbackState := Loading, nextStartTime := 0\<rparr>"
  have step: "on_audio_chunk st currentTime data = Inr ?st'"
    by (rule on_audio_chunk_underrun [OF np ns assms(2,3) buf])
  have sch: "scheduled ?st' = scheduled st"
    using scheduled_append [of st ?src] by (simp add: scheduled_def)
  show ?thesis
    using step sch by (intro exI [of _ buf] exI [of _ ?st']) simp
qed

theorem underrun_drops_segment_witness:
  "player_inv (player_initial\<lparr>playbackState := Playing, nextStartTime := 5\<rparr>)
   \<and> nextStartTime (player_initial\<lparr>playbackState := Playing, nextStartTime := 5\<rparr>) \<noteq> 0
   \<and> nextStartTime (player_initial\<lparr>playbackState := Playing, nextStartTime := 5\<rparr>) < 6
   \<and> (\<exists>buf st'.
           on_audio_chunk (player_initial\<lparr>playbackState := Playing, nextStartTime := 5\<rparr>) 6 [0, 64, 0, 192] = Inr st'
         \<and> st' = (player_initial\<lparr>playbackState := Playing, nextStartTime := 5\<rparr>)\<lparr>sources := sources (player_initial\<lparr>playbackState := Playing, nextStartTime := 5\<rparr>)
                           @ [\<lparr>src_buffer = buf, src_sink = outputNode (player_initial\<lparr>playbackState := Playing, nextStartTime := 5\<rparr>), src_start = None\<rparr>],
                       playbackState := Loading, nextStartTime := 0\<rparr>
         \<and> playbackState st' = Loading \<and> nextStartTime st' = 0
         \<and> scheduled st' = scheduled (player_initial\<lparr>playbackState := Playing, nextStartTime := 5\<rparr>) \<and> timeouts st' = timeouts (player_initial\<lparr>playbackState := Playing, nextStartTime := 5\<rparr>))"
proof -
  have inv: "player_inv (player_initial\<lparr>playbackState := Playing, nextStartTime := 5\<rparr>)"
    by (simp add: player_inv_def)
  have clock: "nextStartTime (player_initial\<lparr>playbackState := Playing, nextStartTime := 5\<rparr>) \<noteq> 0" and behind: "nextStartTime (player_initial\<lparr>playbackState := Playing, nextStartTime := 5\<rparr>) < 6"
    by simp_all
  from underrun_drops_segment [OF inv clock behind, of "[0, 64, 0, 192]"] show ?thesis
    using inv clock behind by (intro conjI)
qed

text \<open>
  C6. When a segment arrives while the clock is the sentinel 0 and playback is neither
  paused nor stopped, the handler sets the clock to the device time plus the lead of 2
  seconds, which is not behind the device time, starts the segment exactly there and
  advances the clock by the segment's duration; it sets one timeout of 2000 ms whose
  callback sets the playback state to playing.
\<close>

theorem lead_buffer_initialisation:
  assumes "nextStartTime st = 0" and "playbackState st \<noteq> Paused"
    and "playbackState st \<noteq> Stopped" and "0 \<le> currentTime"
  shows "\<exists>buf st'.
           decodeAudioData data 48000 2 = Inr buf
         \<and> on_audio_chunk st currentTime data = Inr st'
         \<and> st' = st\<lparr>sources := sources st
                           @ [\<lparr>src_buffer = buf, src_sink = outputNode st,
                               src_start = Some (currentTime + 2)\<rparr>],
                       timeouts := timeouts st @ [(2000, SetPlaybackStatePlaying)],
                       nextStartTime := currentTime + 2 + duration buf\<rparr>
         \<and> scheduled st' = scheduled st @ [(currentTime + 2, duration buf)]
         \<and> \<not> currentTime + 2 < currentTime
         \<and> playbackState st' = playbackState st
         \<and> playbackState (run_timer_action st' SetPlaybackStatePlaying) = Playing"
proof -
  obtain buf where buf: "decodeAudioData data 48000 2 = Inr buf"
    using decode_stereo [of data] by blast
  let ?src = "\<lparr>src_buffer = buf, src_sink = outputNode st, src_start = Some (currentTime + 2)\<rparr>"
  let ?st' = "st\<lparr>sources := sources st @ [?src],
                  timeouts := timeouts st @ [(2000, SetPlaybackStatePlaying)],
                  nextStartTime := currentTime + 2 + duration buf\<rparr>"
  have step: "on_audio_chunk st currentTime data = Inr ?st'"
    by (rule on_audio_chunk_sentinel [OF assms(2,3,1,4) buf])
  have sch: "scheduled ?st' = scheduled st @ [(currentTime + 2, duration buf)]"
    using scheduled_append [of st ?src] by (simp add: scheduled_def)
  show ?thesis
    using buf step sch
    by (intro exI [of _ buf] exI [of _ ?st']) (simp add: run_timer_action_def)
qed

theorem lead_buffer_initialisation_witness:
  "nextStartTime (loadAudio player_initial 0) = 0
   \<and> playbackState (loadAudio player_initial 0) \<noteq> Paused
   \<and> playbackState (loadAudio player_initial 0) \<noteq> Stopped \<and> (0 :: real) \<le> 1
   \<and> (\<exists>buf st'.
           decodeAudioData [0, 64, 0, 192] 48000 2 = Inr buf
         \<and> on_audio_chunk (loadAudio player_initial 0) 1 [0, 64, 0, 192] = Inr st'
         \<and> st' = (loadAudio player_initial 0)\<lparr>sources := sources (loadAudio player_initial 0)
                           @ [\<lparr>src_buffer = buf, src_sink = outputNode (loadAudio player_initial 0),
                               src_start = Some (1 + 2)\<rparr>],
                       timeouts := timeouts (loadAudio player_initial 0) @ [(2000, SetPlaybackStatePlaying)],
                       nextStartTime := 1 + 2 + duration buf\<rparr>
         \<and> scheduled st' = scheduled (loadAudio player_initial 0) @ [(1 + 2, duration buf)]
         \<and> \<not> (1 :: real) + 2 < 1
         \<and> playbackState st' = playbackState (loadAudio player_initial 0)
         \<and> playbackState (run_timer_action st' SetPlaybackStatePlaying) = Playing)"
proof -
  have sentinel: "nextStartTime (loadAudio player_initial 0) = 0"
    and np: "playbackState (loadAudio player_initial 0) \<noteq> Paused" and ns: "playbackState (loadAudio player_initial 0) \<noteq> Stopped"
    by (simp_all add: loadAudio_def player_initial_def)
  have time: "(0 :: real) \<le> 1" by simp
  from lead_buffer_initialisation [OF sentinel np ns time, of "[0, 64, 0, 192]"] show ?thesis
    using sentinel np ns time by (intro conjI)
qed

subsection \<open>The clock is the sentinel while paused or stopped\<close>

lemma player_inv_initial: "player_inv player_initial"
  by (simp add: player_inv_def player_initial_def)

lemma player_inv_pauseAudio: "player_inv (pauseAudio st currentTime)"
  by (simp add: player_inv_def pauseAudio_def Let_def)

lemma player_inv_stopAudio: "player_inv (stopAudio st currentTime)"
  by (simp add: player_inv_def stopAudio_def Let_def)

lemma player_inv_loadAudio: "player_inv (loadAudio st currentTime)"
  by (simp add: player_inv_def loadAudio_def)

lemma player_inv_run_timer_action: "player_inv (run_timer_action st a)"
  by (cases a) (simp add: player_inv_def run_timer_action_def)

lemma player_inv_on_audio_chunk:
  assumes "player_inv st" and "on_audio_chunk st currentTime data = Inr st'"
  shows "player_inv st'"
proof (cases "playbackState st = Paused \<or> playbackState st = Stopped")
  case True
  then show ?thesis
    using assms by (simp add: on_audio_chunk_def)
next
  case False
  then show ?thesis
    using assms(2)
    by (auto simp: on_audio_chunk_def player_inv_def Let_def start_last_source_def
        split: sum.splits if_splits)
qed

subsection \<open>Pause\<close>

text \<open>
  What \<open>pauseAudio\<close> does establish: the state is paused, the clock is the sentinel, the
  master gain is set to 1 and ramped to 0 over 0.1 seconds, the field \<open>outputNode\<close> holds
  a new gain node that is connected to the low-pass filter, and a chunk that arrives in
  this state changes nothing.
\<close>

lemma pauseAudio_postcondition:
  "playbackState (pauseAudio st currentTime) = Paused
   \<and> nextStartTime (pauseAudio st currentTime) = 0
   \<and> masterOutGain (pauseAudio st currentTime)
       = masterOutGain st
         @ [SetValueAtTime 1 currentTime, LinearRampToValueAtTime 0 (currentTime + 1 / 10)]
   \<and> outputNode (pauseAudio st currentTime) = OutputGain (outputNodesCreated st)
   \<and> List.member (connections (pauseAudio st currentTime))
        (OutputGain (outputNodesCreated st), LowPassFilter)
   \<and> sources (pauseAudio st currentTime) = sources st
   \<and> on_audio_chunk (pauseAudio st currentTime) t data = Inr (pauseAudio st currentTime)"
  by (simp add: pauseAudio_def Let_def handleRecord_def on_audio_chunk_def)

text \<open>
  C7 at the failing input. \<open>pauseAudio\<close> never disconnects the node it replaces. In the
  session above the segment scheduled for 4 is still connected, through the old output
  node, to the effect chain and the destination after the pause at 3.2, and the play at
  3.5 has ramped the master gain back to 1 by 3.6, before that segment begins: it does
  not play into a discarded sink.
\<close>

theorem pause_keeps_old_sink_connected:
  "\<not> isl pause_resume_session
   \<and> map src_sink (sources (projr pause_resume_session)) = [OutputGain 0, OutputGain 0]
   \<and> map src_start (sources (projr pause_resume_session)) = [Some 3, Some 4]
   \<and> outputNode (projr pause_resume_session) = OutputGain 1
   \<and> is_path (connections (projr pause_resume_session))
        [OutputGain 0, LowPassFilter, HighPassFilter, BitCrusherBypass, DistortionBypass,
         PhaserBypass, DelayBypass, ReverbBypass, AnalyserNode, MasterOut, Destination]
   \<and> masterOutGain (projr pause_resume_session)
       = [SetValueAtTime 0 0, LinearRampToValueAtTime 1 (1 / 10),
          SetValueAtTime 1 (32 / 10), LinearRampToValueAtTime 0 (33 / 10),
          SetValueAtTime 0 (35 / 10), LinearRampToValueAtTime 1 (36 / 10)]
   \<and> (36 / 10 :: real) < 4"
  by (simp add: pause_resume_session_def on_audio_chunk_def decodeAudioData_closed Let_def
      start_last_source_def duration_def bufferTime_def run_timer_action_def loadAudio_def
      pauseAudio_def player_initial_def disconnect_def constructor_connections_def)

end
